theory Spec2Isabelle
  imports Main
begin

section \<open>The registry directory of hapless\<close>

text \<open>
  The model follows \<^verbatim>\<open>hapless/main.py\<close> (class \<^verbatim>\<open>Hapless\<close>). The state the
  code works on is the directory \<^verbatim>\<open>self._hapless_dir\<close>, one sub-directory per job
  ("hap"), and the process table of the operating system, read through psutil.

  A Python string is a sequence of Unicode code points; the model keeps it as the list
  of their numbers (integers, of which only those from 0 to 1114111 are code points). \<open>lit\<close> turns a literal of ASCII characters into such a string.
\<close>

type_synonym str = "int list"

definition lit :: "string \<Rightarrow> str" where
  "lit s = map of_char s"

text \<open>
  A hap directory holds the files of one record. Each file is either missing
  (\<open>None\<close>) or present with its content, the text that \<^verbatim>\<open>read()\<close> returns. The pid
  and the return code are kept as the numbers the files hold.
\<close>

record hap_dir =
  cmd_file :: "str option"
  name_file :: "str option"
  pid_file :: "nat option"
  rc_file :: "int option"
  stdout_file :: "str option"
  stderr_file :: "str option"

text \<open>
  The listing of \<^verbatim>\<open>self._hapless_dir\<close>: the entries in the order \<^verbatim>\<open>os.listdir\<close>
  yields them (which the operating system chooses), every entry with the files below
  it. An entry name is any string; in a directory the names are pairwise distinct.
\<close>

type_synonym listing = "(str \<times> hap_dir) list"

definition names_of :: "listing \<Rightarrow> str list" where
  "names_of l = map fst l"

text \<open>
  The exceptions the modelled code can raise. \<^verbatim>\<open>sys.exit(n)\<close> raises
  \<^verbatim>\<open>SystemExit\<close>; \<^verbatim>\<open>OSError\<close> stands for the operating system refusing a call
  (\<^verbatim>\<open>FileNotFoundError\<close>, \<^verbatim>\<open>FileExistsError\<close> and the error of a failed
  \<^verbatim>\<open>subprocess.Popen\<close> are its subclasses and are kept apart here).
\<close>

datatype exn =
    SystemExit int
  | AttributeError
  | ValueError
  | FileExistsError
  | FileNotFoundError
  | OSError

subsection \<open>Python's string functions used by the registry\<close>

text \<open>
  The character tables are those of the Unicode database, version 14.0, which
  CPython 3.11 carries. \<open>in_ranges\<close> looks a code point up in a list of closed ranges.
\<close>

definition in_ranges :: "(int \<times> int) list \<Rightarrow> int \<Rightarrow> bool" where
  "in_ranges rs c = list_ex (\<lambda>(a, b). a \<le> c \<and> c \<le> b) rs"

text \<open>
  The decimal digits (general category Nd) come in runs of ten, from the digit zero of a
  script to its digit nine; \<open>decimal_zeros\<close> lists the zeros. \<open>decimal\<close> is the value
  of a decimal digit, and \<open>None\<close> for every other character.
\<close>

definition decimal_zeros :: "int list" where
  "decimal_zeros =
     [48, 1632, 1776, 1984, 2406, 2534, 2662, 2790, 2918, 3046, 3174, 3302, 3430, 3558,
      3664, 3792, 3872, 4160, 4240, 6112, 6160, 6470, 6608, 6784, 6800, 6992, 7088, 7232,
      7248, 42528, 43216, 43264, 43472, 43504, 43600, 44016, 65296, 66720, 68912, 69734,
      69872, 69942, 70096, 70384, 70736, 70864, 71248, 71360, 71472, 71904, 72016, 72784,
      73040, 73120, 92768, 92864, 93008, 120782, 120792, 120802, 120812, 120822, 123200,
      123632, 125264, 130032]"

definition decimal :: "int \<Rightarrow> int option" where
  "decimal c =
     (case find (\<lambda>z. z \<le> c \<and> c < z + 10) decimal_zeros of
        None \<Rightarrow> None
      | Some z \<Rightarrow> Some (c - z))"

text \<open>
  The characters that are digits without being decimal digits (numeric type Digit):
  superscripts and subscripts, circled and parenthesised digits and the like. The first
  entries are the superscripts two and three (178, 179) and one (185).
\<close>

definition other_digits :: "(int \<times> int) list" where
  "other_digits =
     [(178, 179), (185, 185), (4969, 4977), (6618, 6618), (8304, 8304), (8308, 8313),
      (8320, 8329), (9312, 9320), (9332, 9340), (9352, 9360), (9450, 9450), (9461, 9469),
      (9471, 9471), (10102, 10110), (10112, 10120), (10122, 10130), (68160, 68163),
      (69216, 69224), (69714, 69722), (127232, 127242)]"

text \<open>\<^verbatim>\<open>str.isdigit\<close>: the string is not empty and each of its characters is a decimal
  digit or one of the other digits.\<close>

definition digit_char :: "int \<Rightarrow> bool" where
  "digit_char c = (case decimal c of Some v \<Rightarrow> True | None \<Rightarrow> in_ranges other_digits c)"

definition isdigit :: "str \<Rightarrow> bool" where
  "isdigit s = (s \<noteq> [] \<and> list_all digit_char s)"

text \<open>
  \<^verbatim>\<open>int(s)\<close> on a string that \<^verbatim>\<open>str.isdigit\<close> accepts; \<^verbatim>\<open>main.py\<close> calls it on
  such strings only. When every character is a decimal digit the result is the number
  they write in base ten (leading zeros and digits of any script are accepted). A digit
  that is no decimal digit, such as a superscript, makes \<^verbatim>\<open>int\<close> raise
  \<^verbatim>\<open>ValueError\<close>. The signs, blanks and underscores that \<^verbatim>\<open>int\<close> accepts in other
  strings are no digits, so they do not occur here. The interpreter's bound on the number
  of digits (4300) is beyond the length of a directory entry name and is left out.
\<close>

definition py_int :: "str \<Rightarrow> exn + int" where
  "py_int s =
     (if s \<noteq> [] \<and> list_all (\<lambda>c. decimal c \<noteq> None) s
      then Inr (foldl (\<lambda>a c. 10 * a + the (decimal c)) 0 s)
      else Inl ValueError)"

text \<open>\<^verbatim>\<open>f"{n}"\<close> for an integer: its decimal digits in ASCII, no leading zero.\<close>

definition digit_of :: "nat \<Rightarrow> int" where
  "digit_of d = 48 + int d"

fun str_nat :: "nat \<Rightarrow> str" where
  "str_nat n = (if n < 10 then [digit_of n] else str_nat (n div 10) @ [digit_of (n mod 10)])"

declare str_nat.simps [simp del]

definition py_str :: "int \<Rightarrow> str" where
  "py_str i = (if i < 0 then 45 # str_nat (nat (- i)) else str_nat (nat i))"

text \<open>
  \<^verbatim>\<open>str.strip()\<close>: drops the white space at both ends. White space is what
  \<^verbatim>\<open>str.isspace\<close> accepts: the ASCII control characters 9 to 13 and 28 to 31, the
  blank, and the line and space separators of Unicode, among them the next-line
  character (133) and the no-break space (160).
\<close>

definition spaces :: "(int \<times> int) list" where
  "spaces =
     [(9, 13), (28, 32), (133, 133), (160, 160), (5760, 5760), (8192, 8202), (8232, 8233),
      (8239, 8239), (8287, 8287), (12288, 12288)]"

definition py_space :: "int \<Rightarrow> bool" where
  "py_space c = in_ranges spaces c"

definition strip :: "str \<Rightarrow> str" where
  "strip s = rev (dropWhile py_space (rev (dropWhile py_space s)))"

subsection \<open>Identities and names\<close>

text \<open>
  \<^verbatim>\<open>sorted(hap_dirs, key=int)\<close>. The key of every element is computed before anything
  is compared, so one name that \<^verbatim>\<open>int\<close> rejects makes the call raise. Otherwise the
  names are put in the order of their keys; \<^verbatim>\<open>sorted\<close> is stable, as \<open>sort_key\<close> is.
  \<open>int_key\<close> is the key of a name that \<^verbatim>\<open>int\<close> accepts.
\<close>

definition int_key :: "str \<Rightarrow> int" where
  "int_key s = (case py_int s of Inr i \<Rightarrow> i | Inl e \<Rightarrow> 0)"

definition sorted_by_int :: "str list \<Rightarrow> exn + str list" where
  "sorted_by_int xs =
     (case find (\<lambda>x. isl (py_int x)) xs of
        Some x \<Rightarrow> Inl (projl (py_int x))
      | None \<Rightarrow> Inr (sort_key int_key xs))"

text \<open>\<^verbatim>\<open>_get_hap_dirs\<close>: the entries whose name \<^verbatim>\<open>str.isdigit\<close> accepts, sorted by their
  integer value.\<close>

definition get_hap_dirs :: "listing \<Rightarrow> exn + str list" where
  "get_hap_dirs l = (let hap_dirs = filter isdigit (names_of l) in sorted_by_int hap_dirs)"

text \<open>
  The files below a path. A path that does not exist has no files: every read of the
  source that asks \<^verbatim>\<open>exists()\<close> first finds nothing there.
\<close>

definition no_files :: hap_dir where
  "no_files = \<lparr>cmd_file = None, name_file = None, pid_file = None, rc_file = None,
     stdout_file = None, stderr_file = None\<rparr>"

definition files :: "listing \<Rightarrow> str \<Rightarrow> hap_dir" where
  "files l d = (case map_of l d of None \<Rightarrow> no_files | Some h \<Rightarrow> h)"

text \<open>
  \<^verbatim>\<open>_get_hap_names_map\<close>: a dictionary from the stripped content of each \<^verbatim>\<open>name\<close>
  file to the directory that holds it, filled in the order of \<^verbatim>\<open>_get_hap_dirs\<close>; a
  later directory overwrites the entry of an earlier one.
\<close>

definition add_name :: "listing \<Rightarrow> (str \<rightharpoonup> str) \<Rightarrow> str \<Rightarrow> (str \<rightharpoonup> str)" where
  "add_name l names d =
     (case name_file (files l d) of
        None \<Rightarrow> names
      | Some content \<Rightarrow> names(strip content \<mapsto> d))"

definition get_hap_names_map :: "listing \<Rightarrow> exn + (str \<rightharpoonup> str)" where
  "get_hap_names_map l =
     (case get_hap_dirs l of
        Inl e \<Rightarrow> Inl e
      | Inr dirs \<Rightarrow> Inr (foldl (add_name l) Map.empty dirs))"

text \<open>\<^verbatim>\<open>get_next_hap_id\<close>: 1 for no directories, else the integer value of the last
  directory plus one.\<close>

definition get_next_hap_id :: "listing \<Rightarrow> exn + int" where
  "get_next_hap_id l =
     (case get_hap_dirs l of
        Inl e \<Rightarrow> Inl e
      | Inr dirs \<Rightarrow>
          (if dirs = [] then Inr 1
           else (case py_int (last dirs) of Inl e \<Rightarrow> Inl e | Inr i \<Rightarrow> Inr (i + 1))))"

text \<open>
  \<^verbatim>\<open>get_hap\<close>: the alias is looked up among the directory names first, then in the
  names map; with no match the function falls off its end and returns \<^verbatim>\<open>None\<close>.
  A \<^verbatim>\<open>Hap\<close> object is a handle on its directory, so the result is the name of the
  directory the \<^verbatim>\<open>Hap\<close> is built on.
\<close>

definition get_hap :: "listing \<Rightarrow> str \<Rightarrow> exn + str option" where
  "get_hap l hap_alias =
     (case get_hap_dirs l of
        Inl e \<Rightarrow> Inl e
      | Inr dirs \<Rightarrow>
          (if hap_alias \<in> set dirs then Inr (Some hap_alias)
           else (case get_hap_names_map l of
                   Inl e \<Rightarrow> Inl e
                 | Inr names_map \<Rightarrow>
                     (case names_map hap_alias of
                        Some d \<Rightarrow> Inr (Some d)
                      | None \<Rightarrow> Inr None))))"

text \<open>\<^verbatim>\<open>get_haps\<close>: a handle for every directory of \<^verbatim>\<open>_get_hap_dirs\<close>, in that order.\<close>

definition get_haps :: "listing \<Rightarrow> exn + str list" where
  "get_haps l = (case get_hap_dirs l of Inl e \<Rightarrow> Inl e | Inr dirs \<Rightarrow> Inr dirs)"

text \<open>
  Notions to state properties with, none of them used by the functions above. A record
  directory is an entry of the listing whose name \<^verbatim>\<open>str.isdigit\<close> accepts. The name of
  a directory is the stripped content of its \<^verbatim>\<open>name\<close> file (nothing when the file is
  missing); a record carries a name when it is a record directory and has that name. A
  listing is readable when \<^verbatim>\<open>int\<close> accepts the name of every record directory.
\<close>

definition record_dir :: "listing \<Rightarrow> str \<Rightarrow> bool" where
  "record_dir l d = (d \<in> set (names_of l) \<and> isdigit d)"

definition name_of :: "listing \<Rightarrow> str \<Rightarrow> str option" where
  "name_of l d = map_option strip (name_file (files l d))"

definition carries_name :: "listing \<Rightarrow> str \<Rightarrow> str \<Rightarrow> bool" where
  "carries_name l d n = (record_dir l d \<and> name_of l d = Some n)"

definition readable :: "listing \<Rightarrow> bool" where
  "readable l = list_all (\<lambda>d. \<not> isl (py_int d)) (filter isdigit (names_of l))"

subsection \<open>Creating and removing directories\<close>

text \<open>
  \<^verbatim>\<open>Path.mkdir()\<close> without \<^verbatim>\<open>exist_ok\<close>: fails on an existing name, else adds an
  empty directory. Where the new entry stands in later listings is the operating
  system's choice; the model puts it last.
\<close>

definition mkdir :: "listing \<Rightarrow> str \<Rightarrow> exn + listing" where
  "mkdir l d = (if d \<in> set (names_of l) then Inl FileExistsError else Inr (l @ [(d, no_files)]))"

text \<open>\<^verbatim>\<open>shutil.rmtree(path)\<close>: removes the directory and all below it; fails on a
  path that does not exist.\<close>

definition rmtree :: "listing \<Rightarrow> str \<Rightarrow> exn + listing" where
  "rmtree l d =
     (if d \<in> set (names_of l) then Inr (filter (\<lambda>e. fst e \<noteq> d) l) else Inl FileNotFoundError)"

text \<open>The loop \<^verbatim>\<open>for hap in haps: shutil.rmtree(hap.path)\<close> of \<^verbatim>\<open>clean\<close> and
  \<^verbatim>\<open>clean_one\<close>; an exception ends it and leaves what was removed before removed.\<close>

fun rmtree_all :: "listing \<Rightarrow> str list \<Rightarrow> listing \<times> exn option" where
  "rmtree_all l [] = (l, None)"
| "rmtree_all l (d # ds) =
     (case rmtree l d of Inl e \<Rightarrow> (l, Some e) | Inr l' \<Rightarrow> rmtree_all l' ds)"

text \<open>Writing the files of one directory: \<open>f\<close> is applied to the files below \<open>d\<close>.\<close>

definition update_dir :: "listing \<Rightarrow> str \<Rightarrow> (hap_dir \<Rightarrow> hap_dir) \<Rightarrow> listing" where
  "update_dir l d f = map (\<lambda>e. if fst e = d then (fst e, f (snd e)) else e) l"

section \<open>The Hap record\<close>

text \<open>
  Class \<^verbatim>\<open>Hap\<close> and the enumeration \<^verbatim>\<open>Status\<close> live in \<^verbatim>\<open>hapless/hap.py\<close>, which is
  not among the sources at hand; \<^verbatim>\<open>main.py\<close> only uses them. What \<^verbatim>\<open>main.py\<close> uses
  is modelled here from the specification, each definition saying from which part.
\<close>

text \<open>
  The states psutil reports for a process that can take signals;
  \<^verbatim>\<open>psutil.STATUS_STOPPED\<close> is the one \<^verbatim>\<open>main.py\<close> tests for.
\<close>

datatype proc_status = STATUS_RUNNING | STATUS_SLEEPING | STATUS_STOPPED

text \<open>The process table of the operating system: the live processes by pid.\<close>

type_synonym ptable = "nat \<rightharpoonup> proc_status"

text \<open>Modelled from the spec: the enumeration \<^verbatim>\<open>Status\<close> (hapless/hap.py), the five
  states of section 4.2.\<close>

datatype Status = UNBOUND | RUNNING | PAUSED | SUCCESS | FAILED

text \<open>Modelled from the spec: \<^verbatim>\<open>Hap.hid\<close> (hapless/hap.py). Section 3: the id is also
  the name of the record's directory, so the identity of a handle is that name.\<close>

definition hap_hid :: "str \<Rightarrow> str" where
  "hap_hid d = d"

text \<open>Modelled from the spec: \<^verbatim>\<open>Hap.name\<close> and \<^verbatim>\<open>Hap.cmd\<close> (hapless/hap.py).
  Section 6: a file holds the command line, an optional file holds the display name.\<close>

definition hap_name :: "hap_dir \<Rightarrow> str option" where
  "hap_name h = name_file h"

definition hap_cmd :: "hap_dir \<Rightarrow> str option" where
  "hap_cmd h = cmd_file h"

text \<open>Modelled from the spec: \<^verbatim>\<open>Hap.pid\<close> and \<^verbatim>\<open>Hap.rc\<close> (hapless/hap.py).
  Section 6: a file holds the bound process id, a file holds the exit code; both are
  absent until written.\<close>

definition hap_pid :: "hap_dir \<Rightarrow> nat option" where
  "hap_pid h = pid_file h"

definition hap_rc :: "hap_dir \<Rightarrow> int option" where
  "hap_rc h = rc_file h"

text \<open>Modelled from the spec: \<^verbatim>\<open>Hap.proc\<close> (hapless/hap.py), the record's view of its
  process. Section 4.2 asks the process table for the bound pid only when no exit code is
  written and a pid is bound (rules 1 to 3), and section 3 makes the view of the live
  process available only while the record is active. The result is the pid with the
  state the operating system reports for it, or nothing.\<close>

definition hap_proc :: "ptable \<Rightarrow> hap_dir \<Rightarrow> (nat \<times> proc_status) option" where
  "hap_proc t h =
     (case hap_rc h of
        Some c \<Rightarrow> None
      | None \<Rightarrow>
          (case hap_pid h of
             None \<Rightarrow> None
           | Some p \<Rightarrow> (case t p of None \<Rightarrow> None | Some st \<Rightarrow> Some (p, st))))"

text \<open>Modelled from the spec: \<^verbatim>\<open>Hap.status\<close> (hapless/hap.py), the transition rule of
  section 4.2. Rule 3 leaves the state of a bound record with no exit code and no live
  process to the implementer and only forbids to report it as \<open>FAILED\<close>; the operations
  of section 4.4 act on an active record through its live process, so the model reports
  that state as the one non-terminal state that is not active.\<close>

definition hap_status :: "ptable \<Rightarrow> hap_dir \<Rightarrow> Status" where
  "hap_status t h =
     (case hap_rc h of
        Some c \<Rightarrow> (if c = 0 then SUCCESS else FAILED)
      | None \<Rightarrow>
          (case hap_pid h of
             None \<Rightarrow> UNBOUND
           | Some p \<Rightarrow>
               (case t p of
                  None \<Rightarrow> UNBOUND
                | Some st \<Rightarrow> (if st = STATUS_STOPPED then PAUSED else RUNNING))))"

text \<open>Modelled from the spec: \<^verbatim>\<open>Hap.active\<close> (hapless/hap.py). Section 4.2 and the
  glossary: \<open>RUNNING\<close> and \<open>PAUSED\<close> are the active states.\<close>

definition hap_active :: "ptable \<Rightarrow> hap_dir \<Rightarrow> bool" where
  "hap_active t h = (hap_status t h = RUNNING \<or> hap_status t h = PAUSED)"

text \<open>Modelled from the spec: \<^verbatim>\<open>Hap.bind\<close> (hapless/hap.py). Section 4.3: the id of
  the spawned process is bound to the record, which section 6 keeps in the pid file.\<close>

definition hap_bind :: "hap_dir \<Rightarrow> nat \<Rightarrow> hap_dir" where
  "hap_bind h pid = h\<lparr>pid_file := Some pid\<rparr>"

text \<open>Modelled from the spec: the constructor \<^verbatim>\<open>Hap(path, cmd=..., name=...)\<close>
  (hapless/hap.py). Section 4.1, create: the record gets its backing storage and no pid;
  section 6: the command line and the optional name are files of the record. An
  argument that is \<^verbatim>\<open>None\<close> writes nothing.\<close>

definition hap_init :: "str option \<Rightarrow> str option \<Rightarrow> hap_dir \<Rightarrow> hap_dir" where
  "hap_init cmd name h =
     h\<lparr>cmd_file := (case cmd of None \<Rightarrow> cmd_file h | Some c \<Rightarrow> Some c),
       name_file := (case name of None \<Rightarrow> name_file h | Some n \<Rightarrow> Some n)\<rparr>"

section \<open>The operations of class Hapless\<close>

text \<open>
  What \<^verbatim>\<open>console.print\<close> writes: one constructor for every message of the modelled
  functions, with the hap or the number the message names. Calls of \<^verbatim>\<open>logger\<close> are
  left out.
\<close>

datatype message =
    Launching str
  | Exited_too_quickly
  | Printed str
  | Paused str
  | Cannot_pause str
  | Resumed str
  | Cannot_resume str
  | Deleted_finished nat
  | Nothing_to_clean
  | Deleted_hap str
  | Killed nat
  | No_active_haps

text \<open>
  The state the operations work on: the directory of the registry, the process table and
  the console. A \<^verbatim>\<open>Hap\<close> object is the name of its directory; its properties are read
  from the state at the moment they are used, as the properties of the class are.
\<close>

record world =
  hapless_dir :: listing
  procs :: ptable
  console :: "message list"

definition hap_files :: "world \<Rightarrow> str \<Rightarrow> hap_dir" where
  "hap_files w d = files (hapless_dir w) d"

definition active :: "world \<Rightarrow> str \<Rightarrow> bool" where
  "active w d = hap_active (procs w) (hap_files w d)"

definition status :: "world \<Rightarrow> str \<Rightarrow> Status" where
  "status w d = hap_status (procs w) (hap_files w d)"

definition print :: "world \<Rightarrow> message list \<Rightarrow> world" where
  "print w ms = w\<lparr>console := console w @ ms\<rparr>"

subsection \<open>Launching\<close>

text \<open>\<^verbatim>\<open>create_hap\<close>: the next id names a new directory, on which the \<^verbatim>\<open>Hap\<close> is
  built with the command and the name.\<close>

definition create_hap :: "listing \<Rightarrow> str option \<Rightarrow> str option \<Rightarrow> exn + listing \<times> str" where
  "create_hap l cmd name =
     (case get_next_hap_id l of
        Inl e \<Rightarrow> Inl e
      | Inr hid \<Rightarrow>
          (let hap_dir = py_str hid
           in case mkdir l hap_dir of
                Inl e \<Rightarrow> Inl e
              | Inr l' \<Rightarrow> Inr (update_dir l' hap_dir (hap_init cmd name), hap_dir)))"

text \<open>
  What a launch meets outside the program: whether \<^verbatim>\<open>subprocess.Popen\<close> starts the
  shell (\<open>Some pid\<close>) or raises (\<open>None\<close>), what the process writes to its two sinks,
  the code \<^verbatim>\<open>proc.wait()\<close> returns (\<open>None\<close>: the process does not exit, the call
  blocks), and whether a write of the exit code falls within the bounded wait of
  the fast-failure check.
\<close>

record launch_env =
  popen :: "nat option"
  out_text :: str
  err_text :: str
  retcode :: "int option"
  in_time :: bool

text \<open>How a flow of control ends.\<close>

datatype flow_end = Returned | Raised exn | Blocked

text \<open>
  \<^verbatim>\<open>run_hap\<close> on the hap of directory \<open>d\<close> with files \<open>h\<close>. The result lists the
  successive contents of the record's directory, from the one the function starts on to
  the one it leaves; a reader of the record sees one of them. The steps are those of the
  source: both sinks are opened for writing (and truncated), the line "Launching" is
  printed, the shell is spawned, the pid is bound, the process is waited for, the
  return code is written.
\<close>

record run_result =
  states :: "hap_dir list"
  printed :: "message list"
  ended :: flow_end

definition run_hap :: "launch_env \<Rightarrow> str \<Rightarrow> hap_dir \<Rightarrow> run_result" where
  "run_hap env d h =
     (let opened = h\<lparr>stdout_file := Some [], stderr_file := Some []\<rparr> in
      case popen env of
        None \<Rightarrow> \<lparr>states = [h, opened], printed = [Launching d], ended = Raised OSError\<rparr>
      | Some pid \<Rightarrow>
          (let bound = hap_bind opened pid;
               written = bound\<lparr>stdout_file := Some (out_text env),
                                stderr_file := Some (err_text env)\<rparr>
           in case retcode env of
                None \<Rightarrow>
                  \<lparr>states = [h, opened, bound, written], printed = [Launching d],
                   ended = Blocked\<rparr>
              | Some rc \<Rightarrow>
                  \<lparr>states = [h, opened, bound, written, written\<lparr>rc_file := Some rc\<rparr>],
                   printed = [Launching d], ended = Returned\<rparr>))"

text \<open>Modelled from the spec: \<^verbatim>\<open>wait_created\<close> (hapless/utils.py). Section 4.3,
  item 4: a bounded poll for the exit-code marker to appear. Here \<open>h\<close> is the content
  the detached flow leaves; the marker is seen when it is written and written in time.\<close>

definition wait_created :: "launch_env \<Rightarrow> hap_dir \<Rightarrow> bool" where
  "wait_created env h = (in_time env \<and> rc_file h \<noteq> None)"

text \<open>\<^verbatim>\<open>_check_fast_failure\<close>, given what \<^verbatim>\<open>wait_created\<close> answered and the files of
  the hap: the messages printed and the exception raised, if any. In Python
  \<^verbatim>\<open>hap.rc != 0\<close> also holds for \<^verbatim>\<open>None\<close>.\<close>

definition check_fast_failure :: "bool \<Rightarrow> hap_dir \<Rightarrow> message list \<times> exn option" where
  "check_fast_failure created h =
     (if created \<and> hap_rc h \<noteq> Some 0 then
        (case stderr_file h of
           None \<Rightarrow> ([Exited_too_quickly], Some FileNotFoundError)
         | Some content \<Rightarrow> ([Exited_too_quickly, Printed content], Some (SystemExit 1)))
      else ([], None))"

text \<open>
  \<^verbatim>\<open>run\<close>. After \<^verbatim>\<open>create_hap\<close> the process forks. The child (\<^verbatim>\<open>pid == 0\<close>) is the
  detached flow and calls \<^verbatim>\<open>run_hap\<close>; the parent is the flow of the caller: it runs
  the fast-failure check if asked to and always ends in \<^verbatim>\<open>sys.exit\<close>. The two flows
  share nothing but the files of the record. A failing \<^verbatim>\<open>os.fork\<close> is not modelled.
  An exception of \<^verbatim>\<open>create_hap\<close> ends \<^verbatim>\<open>run\<close> before the fork.
\<close>

record run_outcome =
  forked_dir :: listing
  new_hap :: str
  detached :: run_result
  caller_printed :: "message list"
  caller_exit :: exn

definition run :: "launch_env \<Rightarrow> listing \<Rightarrow> str option \<Rightarrow> str option \<Rightarrow> bool \<Rightarrow> exn + run_outcome" where
  "run env l cmd name check =
     (case create_hap l cmd name of
        Inl e \<Rightarrow> Inl e
      | Inr (l', d) \<Rightarrow>
          (let child = run_hap env d (files l' d);
               left = last (states child);
               parent = (if check then check_fast_failure (wait_created env left) left
                         else ([], None))
           in Inr \<lparr>forked_dir = l', new_hap = d, detached = child,
                    caller_printed = fst parent,
                    caller_exit = (case snd parent of Some e \<Rightarrow> e | None \<Rightarrow> SystemExit 0)\<rparr>))"

subsection \<open>Pausing and resuming\<close>

text \<open>
  \<^verbatim>\<open>psutil.Process.suspend\<close> sends \<^verbatim>\<open>SIGSTOP\<close>, after which the process is reported as
  stopped; \<^verbatim>\<open>resume\<close> sends \<^verbatim>\<open>SIGCONT\<close>, after which it runs again.
\<close>

definition suspend :: "nat \<Rightarrow> ptable \<Rightarrow> ptable" where
  "suspend p t = t(p \<mapsto> STATUS_STOPPED)"

definition resume :: "nat \<Rightarrow> ptable \<Rightarrow> ptable" where
  "resume p t = t(p \<mapsto> STATUS_RUNNING)"

text \<open>\<^verbatim>\<open>pause_hap\<close>: the new state and the exception raised, if any.\<close>

definition pause_hap :: "world \<Rightarrow> str \<Rightarrow> world \<times> exn option" where
  "pause_hap w d =
     (case hap_proc (procs w) (hap_files w d) of
        Some (p, st) \<Rightarrow> (print (w\<lparr>procs := suspend p (procs w)\<rparr>) [Paused d], None)
      | None \<Rightarrow> (print w [Cannot_pause d], Some (SystemExit 1)))"

text \<open>\<^verbatim>\<open>resume_hap\<close>.\<close>

definition resume_hap :: "world \<Rightarrow> str \<Rightarrow> world \<times> exn option" where
  "resume_hap w d =
     (case hap_proc (procs w) (hap_files w d) of
        Some (p, st) \<Rightarrow>
          (if st = STATUS_STOPPED
           then (print (w\<lparr>procs := resume p (procs w)\<rparr>) [Resumed d], None)
           else (print w [Cannot_resume d], Some (SystemExit 1)))
      | None \<Rightarrow> (print w [Cannot_resume d], Some (SystemExit 1)))"

subsection \<open>Cleaning\<close>

text \<open>The predicate \<^verbatim>\<open>to_clean\<close> local to \<^verbatim>\<open>clean\<close>.\<close>

definition to_clean :: "world \<Rightarrow> bool \<Rightarrow> str \<Rightarrow> bool" where
  "to_clean w clean_all d = (status w d = SUCCESS \<or> (status w d = FAILED \<and> clean_all))"

text \<open>\<^verbatim>\<open>clean\<close>: the haps to remove are chosen first, then removed one by one. An
  exception of \<^verbatim>\<open>get_haps\<close> ends the function before anything is removed.\<close>

definition clean :: "world \<Rightarrow> bool \<Rightarrow> world \<times> exn option" where
  "clean w clean_all =
     (case get_haps (hapless_dir w) of
        Inl e \<Rightarrow> (w, Some e)
      | Inr all_haps \<Rightarrow>
          (let haps = filter (to_clean w clean_all) all_haps in
           case rmtree_all (hapless_dir w) haps of
             (l', Some e) \<Rightarrow> (w\<lparr>hapless_dir := l'\<rparr>, Some e)
           | (l', None) \<Rightarrow>
               (print (w\<lparr>hapless_dir := l'\<rparr>)
                  [if haps \<noteq> [] then Deleted_finished (length haps) else Nothing_to_clean],
                None)))"

text \<open>\<^verbatim>\<open>clean_one\<close>: its local \<^verbatim>\<open>to_clean\<close> compares the ids only.\<close>

definition clean_one :: "world \<Rightarrow> str \<Rightarrow> bool \<Rightarrow> world \<times> exn option" where
  "clean_one w hap verbose =
     (let hid = hap_hid hap in
      case get_haps (hapless_dir w) of
        Inl e \<Rightarrow> (w, Some e)
      | Inr all_haps \<Rightarrow>
          (let haps = filter (\<lambda>hap_arg. hap_hid hap_arg = hid) all_haps in
           case rmtree_all (hapless_dir w) haps of
             (l', Some e) \<Rightarrow> (w\<lparr>hapless_dir := l'\<rparr>, Some e)
           | (l', None) \<Rightarrow>
               (print (w\<lparr>hapless_dir := l'\<rparr>) (if verbose then [Deleted_hap hid] else []),
                None)))"

subsection \<open>Killing and restarting\<close>

text \<open>
  \<^verbatim>\<open>kill_proc_tree\<close> lives in \<^verbatim>\<open>hapless/utils.py\<close>, which is not among the sources at
  hand. \<^verbatim>\<open>kill\<close> and \<^verbatim>\<open>restart\<close> take it as the parameter \<open>kpt\<close>: what it makes of the
  process table when called with \<^verbatim>\<open>hap.pid\<close>.

  The loop of \<^verbatim>\<open>kill\<close>: every hap that is active when its turn comes is killed and
  counted.
\<close>

fun kill_loop :: "(nat option \<Rightarrow> ptable \<Rightarrow> ptable) \<Rightarrow> listing \<Rightarrow> str list \<Rightarrow> ptable \<times> nat \<Rightarrow> ptable \<times> nat" where
  "kill_loop kpt l [] (t, killed_counter) = (t, killed_counter)"
| "kill_loop kpt l (hap # haps) (t, killed_counter) =
     (if hap_active t (files l hap)
      then kill_loop kpt l haps (kpt (hap_pid (files l hap)) t, killed_counter + 1)
      else kill_loop kpt l haps (t, killed_counter))"

definition kill :: "(nat option \<Rightarrow> ptable \<Rightarrow> ptable) \<Rightarrow> world \<Rightarrow> str list \<Rightarrow> bool \<Rightarrow> world" where
  "kill kpt w haps verbose =
     (case kill_loop kpt (hapless_dir w) haps (procs w, 0) of
        (t, killed_counter) \<Rightarrow>
          print (w\<lparr>procs := t\<rparr>)
            (if killed_counter \<noteq> 0 \<and> verbose then [Killed killed_counter]
             else if verbose then [No_active_haps]
             else []))"

text \<open>
  The busy wait of \<^verbatim>\<open>restart\<close>:
  \<^verbatim>\<open>hap_killed = self.get_hap(hid)\<close>, then
  \<^verbatim>\<open>while hap_killed.active: hap_killed = self.get_hap(hid)\<close>.
  Nothing in the loop changes the state; what changes it is the rest of the system (the
  killed process going away, its supervisor writing the exit code). \<open>step\<close> is what the
  rest of the system does between two polls. \<^verbatim>\<open>get_hap\<close> returning \<^verbatim>\<open>None\<close> makes
  \<^verbatim>\<open>hap_killed.active\<close> raise \<^verbatim>\<open>AttributeError\<close>. The loop has no bound: a run that
  never finds the hap inactive has no result (\<open>None\<close>); otherwise the result is the
  state the loop ends in, with the exception or the hap it ends with.
\<close>

partial_function (option) wait_killed :: "(world \<Rightarrow> world) \<Rightarrow> str \<Rightarrow> world \<Rightarrow> (world \<times> (exn + str)) option" where
  "wait_killed step hid w =
     (case get_hap (hapless_dir w) hid of
        Inl e \<Rightarrow> Some (w, Inl e)
      | Inr found \<Rightarrow>
          (case found of
             None \<Rightarrow> Some (w, Inl AttributeError)
           | Some hap_killed \<Rightarrow>
               (if active w hap_killed then wait_killed step hid (step w)
                else Some (w, Inr hap_killed))))"

declare wait_killed.simps [code]

text \<open>
  \<^verbatim>\<open>restart\<close>, the flow of the caller. It never returns: \<^verbatim>\<open>run\<close> ends in
  \<^verbatim>\<open>sys.exit\<close>, or an exception is raised before. The result is the state the flow
  ends in and the exception that ends it, together with the outcome of \<^verbatim>\<open>run\<close> when
  \<^verbatim>\<open>run\<close> was reached and forked.
\<close>

definition restart :: "(nat option \<Rightarrow> ptable \<Rightarrow> ptable) \<Rightarrow> (world \<Rightarrow> world) \<Rightarrow> launch_env \<Rightarrow> world \<Rightarrow> str \<Rightarrow> (world \<times> exn \<times> run_outcome option) option" where
  "restart kpt step env w hap =
     (let hid = hap_hid hap;
          name = hap_name (hap_files w hap);
          cmd = hap_cmd (hap_files w hap);
          w1 = (if active w hap then kill kpt w [hap] False else w)
      in case wait_killed step hid w1 of
           None \<Rightarrow> None
         | Some (w2, Inl e) \<Rightarrow> Some (w2, e, None)
         | Some (w2, Inr hap_killed) \<Rightarrow>
             (case clean_one w2 hap_killed False of
                (w3, Some e) \<Rightarrow> Some (w3, e, None)
              | (w3, None) \<Rightarrow>
                  (case run env (hapless_dir w3) cmd name False of
                     Inl e \<Rightarrow> Some (w3, e, None)
                   | Inr r \<Rightarrow>
                       Some (print (w3\<lparr>hapless_dir := forked_dir r\<rparr>) (caller_printed r),
                             caller_exit r, Some r))))"

section \<open>Example states\<close>

text \<open>A record directory with a command and a name and nothing else.\<close>

definition named :: "string \<Rightarrow> str \<Rightarrow> hap_dir" where
  "named c n = no_files\<lparr>cmd_file := Some (lit c), name_file := Some n\<rparr>"

text \<open>Three records; the records 5 and 7 share a name, which is also the id of the
  first record. The name file of record 5 ends in a newline. The entry notes is no
  record directory.\<close>

definition shared_names :: listing where
  "shared_names =
     [(lit ''7'', named ''make'' (lit ''3'')),
      (lit ''3'', named ''sleep 5'' (lit ''nap'')),
      (lit ''5'', named ''ls'' (lit ''3'' @ [10])),
      (lit ''notes'', no_files)]"

text \<open>Two records that carry the same name (one name file has a leading blank, the
  other ends in a no-break space), and an entry that is no record directory.\<close>

definition two_named :: listing where
  "two_named =
     [(lit ''12'', named ''make'' (lit ''job'' @ [160])),
      (lit ''2'', named ''ls'' (lit '' job'')),
      (lit ''x'', named ''top'' (lit ''job''))]"

text \<open>A launch whose process starts with pid 4242, writes to its error sink and exits
  with code 2 in time for the fast-failure check; and a launch whose shell cannot be
  started.\<close>

definition quick_exit :: launch_env where
  "quick_exit =
     \<lparr>popen = Some 4242, out_text = [], err_text = lit ''boom'', retcode = Some 2,
      in_time = True\<rparr>"


text \<open>A record that was launched: command, name, pid, the return code if written, and
  both sinks.\<close>

definition job :: "string \<Rightarrow> nat \<Rightarrow> int option \<Rightarrow> hap_dir" where
  "job n p r =
     \<lparr>cmd_file = Some (lit ''sleep 60''), name_file = Some (lit n), pid_file = Some p,
      rc_file = r, stdout_file = Some [], stderr_file = Some []\<rparr>"

text \<open>A registry with one record in each state: 1 has succeeded, 2 runs, 3 has failed,
  4 is stopped, 5 is created and not launched.\<close>

definition mixed :: world where
  "mixed =
     \<lparr>hapless_dir =
        [(lit ''1'', job ''done'' 90 (Some 0)),
         (lit ''2'', job ''nap'' 100 None),
         (lit ''3'', job ''broken'' 91 (Some 1)),
         (lit ''4'', job ''held'' 101 None),
         (lit ''5'', hap_init (Some (lit ''ls'')) None no_files)],
      procs = [100 \<mapsto> STATUS_SLEEPING, 101 \<mapsto> STATUS_STOPPED],
      console = []\<rparr>"

text \<open>The same registry with one more entry, a directory whose name is the superscript
  two: \<^verbatim>\<open>str.isdigit\<close> accepts the name and \<^verbatim>\<open>int\<close> rejects it.\<close>

definition superscript :: world where
  "superscript = mixed\<lparr>hapless_dir := hapless_dir mixed @ [([178], no_files)]\<rparr>"

text \<open>A registry with the single finished record 1.\<close>

definition lone :: world where
  "lone = \<lparr>hapless_dir = [(lit ''1'', job ''nap'' 90 (Some 0))], procs = Map.empty, console = []\<rparr>"

section \<open>Properties of the registry\<close>

subsection \<open>Auxiliary facts\<close>

lemma sorted_last_Max:
  fixes xs :: "'a::linorder list"
  assumes "sorted xs" and "xs \<noteq> []"
  shows "last xs = Max (set xs)"
proof -
  have "\<forall>x\<in>set xs. x \<le> last xs"
    using assms by (induction xs) (auto split: if_splits)
  moreover have "last xs \<in> set xs" using assms(2) by simp
  ultimately show ?thesis by (intro Max_eqI [symmetric]) auto
qed


lemma find_Some_holds: "find P xs = Some d \<Longrightarrow> P d \<and> d \<in> set xs"
  by (induction xs) (auto split: if_splits)

text \<open>\<^verbatim>\<open>_get_hap_dirs\<close> returns exactly in a readable listing, and then it returns the
  record directories in the order of their integer values.\<close>

lemma py_int_Inl: "py_int s = Inl e \<Longrightarrow> e = ValueError"
  by (simp add: py_int_def split: if_splits)

lemma int_key_eq: "py_int s = Inr i \<Longrightarrow> int_key s = i"
  by (simp add: int_key_def)

lemma py_int_int_key: "\<not> isl (py_int s) \<Longrightarrow> py_int s = Inr (int_key s)"
  by (cases "py_int s") (simp_all add: int_key_def)

lemma sorted_by_int_all:
  "list_all (\<lambda>x. \<not> isl (py_int x)) xs \<Longrightarrow> sorted_by_int xs = Inr (sort_key int_key xs)"
  by (simp add: sorted_by_int_def find_None_iff list_all_iff split: option.splits)

lemma sorted_by_int_some:
  "\<not> list_all (\<lambda>x. \<not> isl (py_int x)) xs \<Longrightarrow> sorted_by_int xs = Inl ValueError"
proof -
  assume "\<not> list_all (\<lambda>x. \<not> isl (py_int x)) xs"
  then obtain x where x: "find (\<lambda>x. isl (py_int x)) xs = Some x"
    by (cases "find (\<lambda>x. isl (py_int x)) xs") (auto simp: find_None_iff list_all_iff)
  from find_Some_holds [OF x] have "isl (py_int x)" by simp
  then obtain e where "py_int x = Inl e" by (cases "py_int x") auto
  with py_int_Inl [OF this] x show ?thesis by (simp add: sorted_by_int_def)
qed

lemma get_hap_dirs_readable:
  "readable l \<Longrightarrow> get_hap_dirs l = Inr (sort_key int_key (filter isdigit (names_of l)))"
  by (simp add: get_hap_dirs_def readable_def sorted_by_int_all)

lemma get_hap_dirs_unreadable: "\<not> readable l \<Longrightarrow> get_hap_dirs l = Inl ValueError"
  by (simp add: get_hap_dirs_def readable_def sorted_by_int_some)

lemma get_hap_dirs_Inr:
  "get_hap_dirs l = Inr dirs \<longleftrightarrow>
     readable l \<and> dirs = sort_key int_key (filter isdigit (names_of l))"
  using get_hap_dirs_readable [of l] get_hap_dirs_unreadable [of l] by (cases "readable l") auto

lemma get_hap_dirs_Inl: "get_hap_dirs l = Inl e \<longleftrightarrow> \<not> readable l \<and> e = ValueError"
  using get_hap_dirs_readable [of l] get_hap_dirs_unreadable [of l] by (cases "readable l") auto

lemma set_dirs:
  "get_hap_dirs l = Inr dirs \<Longrightarrow> d \<in> set dirs \<longleftrightarrow> record_dir l d"
  by (auto simp: get_hap_dirs_Inr record_dir_def)

lemma dirs_py_int:
  assumes "get_hap_dirs l = Inr dirs" and "d \<in> set dirs"
  shows "py_int d = Inr (int_key d)"
proof -
  from assms have "readable l" and "d \<in> set (filter isdigit (names_of l))"
    by (auto simp: get_hap_dirs_Inr)
  then have "\<not> isl (py_int d)" by (auto simp: readable_def list_all_iff)
  then show ?thesis by (rule py_int_int_key)
qed

lemma dirs_sorted: "get_hap_dirs l = Inr dirs \<Longrightarrow> sorted (map int_key dirs)"
  by (auto simp: get_hap_dirs_Inr sorted_sort_key)

lemma dirs_distinct: "get_hap_dirs l = Inr dirs \<Longrightarrow> distinct (names_of l) \<Longrightarrow> distinct dirs"
  by (auto simp: get_hap_dirs_Inr)

lemma int_key_last_dirs:
  assumes "get_hap_dirs l = Inr dirs" and "dirs \<noteq> []"
  shows "int_key (last dirs) = Max (int_key ` set dirs)"
proof -
  let ?ks = "map int_key dirs"
  have "sorted ?ks" using assms(1) by (rule dirs_sorted)
  moreover have "?ks \<noteq> []" using assms(2) by simp
  ultimately have "last ?ks = Max (set ?ks)" by (rule sorted_last_Max)
  then show ?thesis using assms(2) by (simp add: last_map)
qed

lemma get_next_hap_id_Inr:
  assumes "get_hap_dirs l = Inr dirs"
  shows "get_next_hap_id l = Inr (if dirs = [] then 1 else Max (int_key ` set dirs) + 1)"
proof (cases "dirs = []")
  case True
  then show ?thesis using assms by (simp add: get_next_hap_id_def)
next
  case False
  then have "last dirs \<in> set dirs" by simp
  from dirs_py_int [OF assms this] int_key_last_dirs [OF assms False] False assms
  show ?thesis by (simp add: get_next_hap_id_def)
qed


text \<open>The decimal digits of a number read back as that number, so the name that
  \<^verbatim>\<open>create_hap\<close> chooses is never taken and \<^verbatim>\<open>mkdir\<close> does not fail.\<close>

lemma decimal_ascii: "d < 10 \<Longrightarrow> decimal (digit_of d) = Some (int d)"
  by (simp add: decimal_def digit_of_def decimal_zeros_def)

lemma digit_of_props:
  assumes "d < 10"
  shows "digit_char (digit_of d)" and "decimal (digit_of d) \<noteq> None"
    and "the (decimal (digit_of d)) = int d"
  using decimal_ascii [OF assms] by (simp_all add: digit_char_def)

lemma str_nat_digits:
  "str_nat n \<noteq> [] \<and> list_all (\<lambda>c. decimal c \<noteq> None) (str_nat n) \<and>
   list_all digit_char (str_nat n) \<and>
   foldl (\<lambda>a c. 10 * a + the (decimal c)) 0 (str_nat n) = int n"
proof (induction n rule: str_nat.induct)
  case (1 n)
  show ?case
  proof (cases "n < 10")
    case True
    then show ?thesis
      using digit_of_props [of n] by (subst (1 2 3 4) str_nat.simps) simp
  next
    case False
    then have ih: "list_all (\<lambda>c. decimal c \<noteq> None) (str_nat (n div 10))"
      "list_all digit_char (str_nat (n div 10))"
      "foldl (\<lambda>a c. 10 * a + the (decimal c)) 0 (str_nat (n div 10)) = int (n div 10)"
      using 1 by simp_all
    have s: "str_nat n = str_nat (n div 10) @ [digit_of (n mod 10)]"
      using False by (subst str_nat.simps) simp
    have "n mod 10 < 10" by simp
    from digit_of_props [OF this] ih show ?thesis
      unfolding s by simp presburger
  qed
qed

lemma py_int_str_nat: "isdigit (str_nat n) \<and> py_int (str_nat n) = Inr (int n)"
  using str_nat_digits [of n] by (simp add: isdigit_def py_int_def)

lemma decimal_nonneg: "decimal c = Some v \<Longrightarrow> 0 \<le> v"
  by (auto simp: decimal_def dest!: find_Some_holds split: option.splits)

lemma py_int_nonneg: "py_int s = Inr i \<Longrightarrow> 0 \<le> i"
proof -
  have "list_all (\<lambda>c. decimal c \<noteq> None) s \<Longrightarrow>
          0 \<le> foldl (\<lambda>a c. 10 * a + the (decimal c)) 0 s"
  proof (induction s rule: rev_induct)
    case Nil
    then show ?case by simp
  next
    case (snoc c s)
    then obtain v where "decimal c = Some v" by auto
    with decimal_nonneg [OF this] snoc show ?case by simp
  qed
  then show "py_int s = Inr i \<Longrightarrow> 0 \<le> i"
    by (auto simp: py_int_def split: if_splits)
qed

lemma get_next_hap_id_positive: "get_next_hap_id l = Inr i \<Longrightarrow> 1 \<le> i"
proof -
  assume a: "get_next_hap_id l = Inr i"
  then obtain dirs where d: "get_hap_dirs l = Inr dirs"
    by (cases "get_hap_dirs l") (simp_all add: get_next_hap_id_def)
  show ?thesis
  proof (cases "dirs = []")
    case True
    then show ?thesis using a d by (simp add: get_next_hap_id_def)
  next
    case False
    then have "last dirs \<in> set dirs" by simp
    from dirs_py_int [OF d this] have p: "py_int (last dirs) = Inr (int_key (last dirs))" .
    from py_int_nonneg [OF p] a d False p show ?thesis by (simp add: get_next_hap_id_def)
  qed
qed

lemma get_next_hap_id_above:
  assumes "get_hap_dirs l = Inr dirs" and "d \<in> set dirs" and "get_next_hap_id l = Inr i"
  shows "int_key d < i"
proof -
  from assms(2) have ne: "dirs \<noteq> []" by auto
  have "int_key d \<le> Max (int_key ` set dirs)" using assms(2) by simp
  then show ?thesis using get_next_hap_id_Inr [OF assms(1)] ne assms(3) by simp
qed

lemma next_name_fresh:
  assumes "get_next_hap_id l = Inr i"
  shows "py_str i \<notin> set (names_of l)"
proof
  assume a: "py_str i \<in> set (names_of l)"
  from assms obtain dirs where d: "get_hap_dirs l = Inr dirs"
    by (cases "get_hap_dirs l") (simp_all add: get_next_hap_id_def)
  have p: "1 \<le> i" using assms by (rule get_next_hap_id_positive)
  then have s: "py_str i = str_nat (nat i)" by (simp add: py_str_def)
  have "isdigit (py_str i)" and v: "py_int (py_str i) = Inr i"
    using py_int_str_nat [of "nat i"] p by (simp_all add: s)
  with a have "py_str i \<in> set dirs" using d by (simp add: set_dirs record_dir_def)
  from get_next_hap_id_above [OF d this assms] v show False by (simp add: int_key_def)
qed

lemma update_dir_new:
  "d \<notin> set (names_of l) \<Longrightarrow> update_dir (l @ [(d, h)]) d f = l @ [(d, f h)]"
  by (induction l) (auto simp: update_dir_def names_of_def)

lemma map_of_new: "d \<notin> set (names_of l) \<Longrightarrow> map_of (l @ [(d, h)]) d = Some h"
  by (induction l) (auto simp: names_of_def)

lemma create_hap_succeeds:
  assumes "get_next_hap_id l = Inr i"
  shows "create_hap l cmd name =
     Inr (l @ [(py_str i, hap_init cmd name no_files)], py_str i)"
proof -
  let ?d = "py_str i"
  have f: "?d \<notin> set (names_of l)" using assms by (rule next_name_fresh)
  then have "update_dir (l @ [(?d, no_files)]) ?d (hap_init cmd name) =
          l @ [(?d, hap_init cmd name no_files)]"
    by (rule update_dir_new)
  then show ?thesis using f assms by (simp add: create_hap_def mkdir_def Let_def)
qed

lemma create_hap_files:
  assumes "create_hap l cmd name = Inr (l', d)"
  shows "files l' d = hap_init cmd name no_files"
proof -
  from assms obtain i where i: "get_next_hap_id l = Inr i"
    by (cases "get_next_hap_id l") (simp_all add: create_hap_def)
  from create_hap_succeeds [OF i, of cmd name] assms
  have l: "l' = l @ [(py_str i, hap_init cmd name no_files)]" and d: "d = py_str i" by simp_all
  have "map_of (l @ [(py_str i, hap_init cmd name no_files)]) (py_str i) =
          Some (hap_init cmd name no_files)"
    using next_name_fresh [OF i] by (rule map_of_new)
  then show ?thesis unfolding l d files_def by (simp only: option.case)
qed

lemma create_hap_unreadable: "\<not> readable l \<Longrightarrow> create_hap l cmd name = Inl ValueError"
  by (simp add: create_hap_def get_next_hap_id_def get_hap_dirs_unreadable)


lemma py_str_small: "py_str 1 = lit ''1''" "py_str 2 = lit ''2''" "py_str 3 = lit ''3''"
  "py_str 4 = lit ''4''"
  by code_simp+

subsection \<open>The names map\<close>

lemma add_name_apply:
  "add_name l m d n = (if name_of l d = Some n then Some d else m n)"
  by (auto simp: add_name_def name_of_def split: option.splits)

lemma foldl_add_name:
  "foldl (add_name l) m ds n =
     (case find (\<lambda>d. name_of l d = Some n) (rev ds) of None \<Rightarrow> m n | Some d \<Rightarrow> Some d)"
proof (induction ds rule: rev_induct)
  case Nil
  then show ?case by simp
next
  case (snoc x xs)
  then show ?case by (simp add: add_name_apply)
qed

text \<open>In a list sorted by \<open>f\<close>, the last element with a property has the largest \<open>f\<close>
  among the elements with the property.\<close>

lemma find_rev_sorted_max:
  assumes "sorted (map f ds)" and "find P (rev ds) = Some d" and "d' \<in> set ds" and "P d'"
  shows "f d' \<le> f d"
  using assms
proof (induction ds rule: rev_induct)
  case Nil
  then show ?case by simp
next
  case (snoc x xs)
  show ?case
  proof (cases "P x")
    case True
    then have "d = x" using snoc.prems(2) by simp
    then show ?thesis using snoc.prems(1,3) by (auto simp: sorted_append)
  next
    case False
    then have "find P (rev xs) = Some d" using snoc.prems(2) by simp
    moreover have "d' \<in> set xs" using snoc.prems(3,4) False by auto
    moreover have "sorted (map f xs)" using snoc.prems(1) by (simp add: sorted_append)
    ultimately show ?thesis using snoc.IH snoc.prems(4) by blast
  qed
qed

lemma names_map_Some:
  assumes "get_hap_dirs l = Inr dirs" and "foldl (add_name l) Map.empty dirs n = Some d"
  shows "carries_name l d n" and "carries_name l d' n \<Longrightarrow> int_key d' \<le> int_key d"
proof -
  let ?P = "\<lambda>d. name_of l d = Some n"
  from assms(2) have f: "find ?P (rev dirs) = Some d"
    by (simp add: foldl_add_name split: option.splits)
  from find_Some_holds [OF f] show "carries_name l d n"
    using set_dirs [OF assms(1)] by (simp add: carries_name_def)
  have s: "sorted (map int_key dirs)" using assms(1) by (rule dirs_sorted)
  show "int_key d' \<le> int_key d" if "carries_name l d' n"
    using find_rev_sorted_max [OF s f, of d'] that set_dirs [OF assms(1)]
    by (simp add: carries_name_def)
qed

lemma names_map_None:
  assumes "get_hap_dirs l = Inr dirs"
  shows "foldl (add_name l) Map.empty dirs n = None \<longleftrightarrow> (\<forall>d. \<not> carries_name l d n)"
proof -
  have "foldl (add_name l) Map.empty dirs n = None \<longleftrightarrow>
          find (\<lambda>d. name_of l d = Some n) (rev dirs) = None"
    by (simp add: foldl_add_name split: option.splits)
  then show ?thesis using set_dirs [OF assms] by (auto simp: find_None_iff carries_name_def)
qed

lemma get_hap_Inr:
  assumes "get_hap_dirs l = Inr dirs"
  shows "get_hap l n =
           Inr (if n \<in> set dirs then Some n else foldl (add_name l) Map.empty dirs n)"
  using assms by (simp add: get_hap_def get_hap_names_map_def split: option.splits)

lemma get_hap_unreadable: "\<not> readable l \<Longrightarrow> get_hap l n = Inl ValueError"
  by (simp add: get_hap_def get_hap_dirs_unreadable)

lemma get_hap_id:
  assumes "readable l" and "record_dir l n"
  shows "get_hap l n = Inr (Some n)"
proof -
  from assms(1) obtain dirs where dirs: "get_hap_dirs l = Inr dirs"
    using get_hap_dirs_readable by blast
  have "n \<in> set dirs" using assms(2) set_dirs [OF dirs, of n] by blast
  then show ?thesis using get_hap_Inr [OF dirs, of n] by simp
qed

lemma get_hap_name:
  assumes "readable l" and "\<not> record_dir l n" and "carries_name l d0 n"
  shows "\<exists>d. get_hap l n = Inr (Some d) \<and> carries_name l d n \<and>
              (\<forall>d'. carries_name l d' n \<longrightarrow> int_key d' \<le> int_key d)"
proof -
  from assms(1) obtain dirs where dirs: "get_hap_dirs l = Inr dirs"
    using get_hap_dirs_readable by blast
  have "foldl (add_name l) Map.empty dirs n \<noteq> None"
    using names_map_None [OF dirs, of n] assms(3) by blast
  then obtain d where d: "foldl (add_name l) Map.empty dirs n = Some d" by blast
  have "n \<notin> set dirs" using assms(2) set_dirs [OF dirs, of n] by blast
  then have "get_hap l n = Inr (Some d)" using get_hap_Inr [OF dirs, of n] d by simp
  with names_map_Some [OF dirs d] show ?thesis by blast
qed

lemma get_hap_none:
  assumes "readable l" and "\<not> record_dir l n" and "\<forall>d. \<not> carries_name l d n"
  shows "get_hap l n = Inr None"
proof -
  from assms(1) obtain dirs where dirs: "get_hap_dirs l = Inr dirs"
    using get_hap_dirs_readable by blast
  have "foldl (add_name l) Map.empty dirs n = None"
    using names_map_None [OF dirs, of n] assms(3) by blast
  moreover have "n \<notin> set dirs" using assms(2) set_dirs [OF dirs, of n] by blast
  ultimately show ?thesis using get_hap_Inr [OF dirs, of n] by simp
qed

lemma carrier_int:
  assumes "readable l" and "carries_name l d n"
  shows "py_int d = Inr (int_key d)"
proof -
  from assms(1) obtain dirs where dirs: "get_hap_dirs l = Inr dirs"
    using get_hap_dirs_readable by blast
  have "d \<in> set dirs"
    using assms(2) set_dirs [OF dirs, of d] by (simp add: carries_name_def)
  with dirs show ?thesis by (rule dirs_py_int)
qed

subsection \<open>The next id\<close>

text \<open>
  In a readable listing \<^verbatim>\<open>get_next_hap_id\<close> returns 1 when there is no record
  directory, and otherwise the largest integer value of the name of a record directory
  plus one (lemma \<open>get_next_hap_id_max_plus_one\<close>). After three haps are created in an
  empty registry (they get the ids 1, 2 and 3) and the directory of hap 2 is removed, the
  next id is 4: the freed id below the maximum is not given out again.
\<close>

lemma next_id_after_removal:
  "\<exists>l1 l2 l3 l4.
         create_hap [] cmd1 name1 = Inr (l1, lit ''1'') \<and>
         create_hap l1 cmd2 name2 = Inr (l2, lit ''2'') \<and>
         create_hap l2 cmd3 name3 = Inr (l3, lit ''3'') \<and>
         rmtree l3 (lit ''2'') = Inr l4 \<and>
         get_next_hap_id l4 = Inr 4"
proof -
  let ?h1 = "hap_init cmd1 name1 no_files"
  let ?h2 = "hap_init cmd2 name2 no_files"
  let ?h3 = "hap_init cmd3 name3 no_files"
  let ?l1 = "[(lit ''1'', ?h1)]"
  let ?l2 = "[(lit ''1'', ?h1), (lit ''2'', ?h2)]"
  let ?l3 = "[(lit ''1'', ?h1), (lit ''2'', ?h2), (lit ''3'', ?h3)]"
  let ?l4 = "[(lit ''1'', ?h1), (lit ''3'', ?h3)]"
  have n: "get_next_hap_id [] = Inr 1" "get_next_hap_id ?l1 = Inr 2"
    "get_next_hap_id ?l2 = Inr 3" "get_next_hap_id ?l4 = Inr 4"
    by code_simp+
  have "create_hap [] cmd1 name1 = Inr (?l1, lit ''1'')"
    using create_hap_succeeds [OF n(1)] by (simp add: py_str_small)
  moreover have "create_hap ?l1 cmd2 name2 = Inr (?l2, lit ''2'')"
    using create_hap_succeeds [OF n(2)] by (simp add: py_str_small)
  moreover have "create_hap ?l2 cmd3 name3 = Inr (?l3, lit ''3'')"
    using create_hap_succeeds [OF n(3)] by (simp add: py_str_small)
  moreover have "rmtree ?l3 (lit ''2'') = Inr ?l4"
    by (simp add: rmtree_def names_of_def lit_def)
  ultimately show ?thesis using n(4) by blast
qed

text \<open>
  Claim C3. The claim fails in a listing that is not readable. The superscript two is a
  digit for \<^verbatim>\<open>str.isdigit\<close>, so a directory of that name passes the filter of
  \<^verbatim>\<open>_get_hap_dirs\<close>; \<^verbatim>\<open>int\<close> rejects it, so \<^verbatim>\<open>sorted(hap_dirs, key=int)\<close> raises
  \<^verbatim>\<open>ValueError\<close>. With that directory alone in the registry \<^verbatim>\<open>get_next_hap_id\<close>
  raises where the claim has it return 1; with it beside the record 4 the function
  raises where the claim has it return 5.
\<close>

theorem next_id_superscript_two:
  "isdigit [178] \<and> py_int [178] = Inl ValueError \<and>
   get_next_hap_id [([178], no_files)] = Inl ValueError \<and>
   get_next_hap_id [(lit ''4'', no_files)] = Inr 5 \<and>
   get_next_hap_id [(lit ''4'', no_files), ([178], no_files)] = Inl ValueError"
  by code_simp

subsection \<open>Resolving an alias\<close>

text \<open>
  Claim C6. The claim fails in a listing that is not readable: \<^verbatim>\<open>get_hap\<close> starts with
  \<^verbatim>\<open>_get_hap_dirs\<close>, which raises \<^verbatim>\<open>ValueError\<close> there, whatever the alias. In the
  example registry the alias web matches nothing and resolves to \<^verbatim>\<open>None\<close>, and the
  alias 2 resolves to record 2; with the directory named by the superscript two beside
  the records, both calls raise.
\<close>

theorem get_hap_superscript_two:
  "get_hap (hapless_dir mixed) (lit ''web'') = Inr None \<and>
   get_hap (hapless_dir mixed) (lit ''2'') = Inr (Some (lit ''2'')) \<and>
   hapless_dir superscript = hapless_dir mixed @ [([178], no_files)] \<and>
   get_hap (hapless_dir superscript) (lit ''web'') = Inl ValueError \<and>
   get_hap (hapless_dir superscript) (lit ''2'') = Inl ValueError"
  by code_simp

text \<open>
  In a readable listing \<^verbatim>\<open>get_hap\<close> matches the alias against the names of the
  record directories first: an alias that is such a name resolves to that record,
  whatever names the records carry. An alias that is no such name resolves to a record
  that carries it as its name, if there is one, and to \<^verbatim>\<open>None\<close> otherwise.
\<close>

lemma get_hap_resolves:
  assumes "readable l"
  shows "(record_dir l hap_alias \<longrightarrow> get_hap l hap_alias = Inr (Some hap_alias)) \<and>
   (\<not> record_dir l hap_alias \<and> carries_name l d0 hap_alias \<longrightarrow>
      (\<exists>d. get_hap l hap_alias = Inr (Some d) \<and> carries_name l d hap_alias)) \<and>
   (\<not> record_dir l hap_alias \<and> (\<forall>d. \<not> carries_name l d hap_alias) \<longrightarrow> get_hap l hap_alias = Inr None)"
proof (intro conjI impI)
  show "get_hap l hap_alias = Inr (Some hap_alias)" if "record_dir l hap_alias"
    using assms that by (rule get_hap_id)
  show "\<exists>d. get_hap l hap_alias = Inr (Some d) \<and> carries_name l d hap_alias"
    if "\<not> record_dir l hap_alias \<and> carries_name l d0 hap_alias"
    using get_hap_name [OF assms, of hap_alias d0] that by blast
  show "get_hap l hap_alias = Inr None"
    if "\<not> record_dir l hap_alias \<and> (\<forall>d. \<not> carries_name l d hap_alias)"
    using get_hap_none [OF assms, of hap_alias] that by blast
qed

subsection \<open>Records that share a name\<close>

text \<open>
  Claim C10 as stated does not hold: when the shared name is itself the name of an
  existing record directory, the alias never reaches the names map. In the example the
  records 5 and 7 carry the name 3, record 7 has the higher id, and the alias 3 resolves
  to record 3.
\<close>

theorem shared_name_counterexample:
  "carries_name shared_names (lit ''5'') (lit ''3'') \<and>
   carries_name shared_names (lit ''7'') (lit ''3'') \<and>
   py_int (lit ''5'') = Inr 5 \<and> py_int (lit ''7'') = Inr 7 \<and>
   get_hap shared_names (lit ''3'') = Inr (Some (lit ''3'')) \<and>
   get_hap shared_names (lit ''3'') \<noteq> Inr (Some (lit ''7''))"
  by code_simp

text \<open>
  Claim C10, amended, in a readable listing. A name that is also the name of a record
  directory resolves to that record. When records carry the name \<open>n\<close> and \<open>n\<close> is not
  the name of a record directory, \<^verbatim>\<open>get_hap\<close> resolves \<open>n\<close> to a record that carries
  it and whose id, the integer value of its directory name, is the highest among the
  records that carry it: the names map is filled in ascending order of the ids, and a
  later entry overwrites an earlier one.
\<close>

theorem shared_name_highest_id:
  assumes "readable l"
  shows "(record_dir l n \<longrightarrow> get_hap l n = Inr (Some n)) \<and>
   (\<not> record_dir l n \<and> carries_name l d0 n \<longrightarrow>
      (\<exists>d i. get_hap l n = Inr (Some d) \<and> carries_name l d n \<and> py_int d = Inr i \<and>
         (\<forall>d' i'. carries_name l d' n \<and> py_int d' = Inr i' \<longrightarrow> i' \<le> i)))"
proof (intro conjI impI)
  show "get_hap l n = Inr (Some n)" if "record_dir l n"
    using assms that by (rule get_hap_id)
  show "\<exists>d i. get_hap l n = Inr (Some d) \<and> carries_name l d n \<and> py_int d = Inr i \<and>
         (\<forall>d' i'. carries_name l d' n \<and> py_int d' = Inr i' \<longrightarrow> i' \<le> i)"
    if a: "\<not> record_dir l n \<and> carries_name l d0 n"
  proof -
    from get_hap_name [OF assms, of n d0] a obtain d where
      g: "get_hap l n = Inr (Some d)" and c: "carries_name l d n"
      and m: "\<forall>d'. carries_name l d' n \<longrightarrow> int_key d' \<le> int_key d"
      by blast
    have p: "py_int d = Inr (int_key d)" using assms c by (rule carrier_int)
    have "i' \<le> int_key d" if "carries_name l d' n \<and> py_int d' = Inr i'" for d' i'
      using that m int_key_eq [of d' i'] by auto
    with g c p show ?thesis by blast
  qed
qed

text \<open>In the example the records 2 and 12 carry the name job (one name file starts with
  a blank, the other ends in a no-break space), which is no record directory; the alias
  resolves to record 12. The alias 3 of the other example is a record directory and
  resolves to it.\<close>

theorem shared_name_highest_id_witness:
  "readable two_named \<and> \<not> record_dir two_named (lit ''job'') \<and>
   carries_name two_named (lit ''2'') (lit ''job'') \<and>
   carries_name two_named (lit ''12'') (lit ''job'') \<and>
   get_hap two_named (lit ''job'') = Inr (Some (lit ''12'')) \<and>
   py_int (lit ''12'') = Inr 12 \<and> (2::int) \<le> 12 \<and>
   record_dir shared_names (lit ''3'') \<and>
   get_hap shared_names (lit ''3'') = Inr (Some (lit ''3''))"
proof -
  have r: "readable two_named" by code_simp
  have n: "\<not> record_dir two_named (lit ''job'')" by code_simp
  have c: "carries_name two_named (lit ''2'') (lit ''job'')" by code_simp
  have c12: "carries_name two_named (lit ''12'') (lit ''job'')" by code_simp
  have g: "get_hap two_named (lit ''job'') = Inr (Some (lit ''12''))" by code_simp
  have p: "py_int (lit ''12'') = Inr 12" "py_int (lit ''2'') = Inr 2" by code_simp+
  have rs: "readable shared_names" by code_simp
  have i: "record_dir shared_names (lit ''3'')" by code_simp
  from shared_name_highest_id [OF r, of "lit ''job''" "lit ''2''"] n c g p(1)
  have "\<forall>d' i'. carries_name two_named d' (lit ''job'') \<and> py_int d' = Inr i' \<longrightarrow> i' \<le> 12"
    by auto
  with c p(2) have "(2::int) \<le> 12" by blast
  moreover from shared_name_highest_id [OF rs, of "lit ''3''" "lit ''7''"] i
  have "get_hap shared_names (lit ''3'') = Inr (Some (lit ''3''))" by blast
  ultimately show ?thesis using r n c c12 g p(1) i by blast
qed

section \<open>Properties of the launch\<close>

lemma run_hap_invariant:
  assumes "rc_file h \<noteq> None \<longrightarrow> pid_file h \<noteq> None"
  shows "\<forall>s\<in>set (states (run_hap env d h)). rc_file s \<noteq> None \<longrightarrow> pid_file s \<noteq> None"
  using assms by (auto simp: run_hap_def hap_bind_def Let_def split: option.splits)

lemma run_hap_order:
  assumes "popen env = Some p" and "retcode env = Some c"
  shows "\<exists>pre post. states (run_hap env d h) = pre @ post \<and> pre \<noteq> [] \<and> post \<noteq> [] \<and>
           (\<forall>s\<in>set pre. rc_file s = rc_file h) \<and> pid_file (last pre) = Some p \<and>
           (\<forall>s\<in>set post. rc_file s = Some c \<and> pid_file s = Some p)"
proof -
  let ?o = "h\<lparr>stdout_file := Some [], stderr_file := Some []\<rparr>"
  let ?b = "hap_bind ?o p"
  let ?w = "?b\<lparr>stdout_file := Some (out_text env), stderr_file := Some (err_text env)\<rparr>"
  have "states (run_hap env d h) = [h, ?o, ?b, ?w] @ [?w\<lparr>rc_file := Some c\<rparr>]"
    using assms by (simp add: run_hap_def Let_def)
  moreover have "\<forall>s\<in>set [h, ?o, ?b, ?w]. rc_file s = rc_file h"
    by (simp add: hap_bind_def)
  moreover have "pid_file (last [h, ?o, ?b, ?w]) = Some p"
    by (simp add: hap_bind_def)
  moreover have "\<forall>s\<in>set [?w\<lparr>rc_file := Some c\<rparr>]. rc_file s = Some c \<and> pid_file s = Some p"
    by (simp add: hap_bind_def)
  ultimately show ?thesis by blast
qed

text \<open>
  Claim C1. In every content of the record's directory that \<^verbatim>\<open>run_hap\<close> passes through,
  from its start to its end, a written return code comes with a bound pid: this holds
  throughout when it holds at the start, and it holds at the start for the record that
  \<^verbatim>\<open>run\<close> has just created. When the process is spawned and exits, the run splits in
  two parts: in the first the return code is as it was and at its end the pid is bound
  already; in the second the return code is written and the pid is still bound.
\<close>

theorem run_hap_pid_before_rc:
  "((rc_file h \<noteq> None \<longrightarrow> pid_file h \<noteq> None) \<longrightarrow>
      (\<forall>s\<in>set (states (run_hap env d h)). rc_file s \<noteq> None \<longrightarrow> pid_file s \<noteq> None)) \<and>
   (run env l cmd name check = Inr r \<longrightarrow>
      (\<forall>s\<in>set (states (detached r)). rc_file s \<noteq> None \<longrightarrow> pid_file s \<noteq> None)) \<and>
   (popen env = Some p \<and> retcode env = Some c \<longrightarrow>
      (\<exists>pre post. states (run_hap env d h) = pre @ post \<and> pre \<noteq> [] \<and> post \<noteq> [] \<and>
           (\<forall>s\<in>set pre. rc_file s = rc_file h) \<and> pid_file (last pre) = Some p \<and>
           (\<forall>s\<in>set post. rc_file s = Some c \<and> pid_file s = Some p)))"
proof (intro conjI impI)
  show "\<forall>s\<in>set (states (run_hap env d h)). rc_file s \<noteq> None \<longrightarrow> pid_file s \<noteq> None"
    if "rc_file h \<noteq> None \<longrightarrow> pid_file h \<noteq> None"
    using that by (rule run_hap_invariant)
  show "\<forall>s\<in>set (states (detached r)). rc_file s \<noteq> None \<longrightarrow> pid_file s \<noteq> None"
    if r: "run env l cmd name check = Inr r"
  proof -
    from r obtain l' d' where c: "create_hap l cmd name = Inr (l', d')"
      and d: "detached r = run_hap env d' (files l' d')"
      by (auto simp: run_def Let_def split: sum.splits prod.splits)
    have "rc_file (files l' d') = None"
      using create_hap_files [OF c] by (simp add: hap_init_def no_files_def)
    then show ?thesis using run_hap_invariant [of "files l' d'" env d'] d by simp
  qed
  show "\<exists>pre post. states (run_hap env d h) = pre @ post \<and> pre \<noteq> [] \<and> post \<noteq> [] \<and>
           (\<forall>s\<in>set pre. rc_file s = rc_file h) \<and> pid_file (last pre) = Some p \<and>
           (\<forall>s\<in>set post. rc_file s = Some c \<and> pid_file s = Some p)"
    if "popen env = Some p \<and> retcode env = Some c"
    using that run_hap_order by blast
qed

text \<open>A launch in the empty registry whose process exits with code 2: the return code is
  written in the end, and every content on the way has the pid or no return code.\<close>

theorem run_hap_pid_before_rc_witness:
  "\<not> isl (run quick_exit [] (Some (lit ''false'')) (Some (lit ''nap'')) False) \<and>
   list_all (\<lambda>s. rc_file s = None \<or> pid_file s \<noteq> None)
     (states (detached (projr (run quick_exit [] (Some (lit ''false'')) (Some (lit ''nap'')) False)))) \<and>
   rc_file (last (states (detached (projr
     (run quick_exit [] (Some (lit ''false'')) (Some (lit ''nap'')) False))))) = Some 2"
proof -
  let ?run = "run quick_exit [] (Some (lit ''false'')) (Some (lit ''nap'')) False"
  have i: "\<not> isl ?run" by code_simp
  then obtain r where r: "?run = Inr r" by (cases ?run) auto
  have "\<forall>s\<in>set (states (detached r)). rc_file s \<noteq> None \<longrightarrow> pid_file s \<noteq> None"
    using run_hap_pid_before_rc [of no_files quick_exit "lit ''1''" "[]" "Some (lit ''false'')"
        "Some (lit ''nap'')" False r 4242 2] r
    by simp
  then have "list_all (\<lambda>s. rc_file s = None \<or> pid_file s \<noteq> None) (states (detached r))"
    by (auto simp: list_all_iff)
  moreover have "rc_file (last (states (detached (projr ?run)))) = Some 2" by code_simp
  ultimately show ?thesis using i r by simp
qed

lemma run_outcome:
  assumes "get_next_hap_id l = Inr i"
  shows "\<exists>r. run env l cmd name check = Inr r \<and>
       new_hap r = py_str i \<and>
       forked_dir r = l @ [(new_hap r, hap_init cmd name no_files)] \<and>
       detached r = run_hap env (new_hap r) (hap_init cmd name no_files) \<and>
       caller_printed r =
         (if check
          then fst (check_fast_failure (wait_created env (last (states (detached r))))
                      (last (states (detached r))))
          else []) \<and>
       caller_exit r =
         (if check
          then (case snd (check_fast_failure (wait_created env (last (states (detached r))))
                            (last (states (detached r)))) of
                  Some e \<Rightarrow> e | None \<Rightarrow> SystemExit 0)
          else SystemExit 0)"
proof -
  let ?d = "py_str i"
  let ?l = "l @ [(?d, hap_init cmd name no_files)]"
  have c: "create_hap l cmd name = Inr (?l, ?d)" using assms by (rule create_hap_succeeds)
  have f: "files ?l ?d = hap_init cmd name no_files" by (rule create_hap_files [OF c])
  show ?thesis by (simp add: run_def c f Let_def)
qed





section \<open>Spawn failure and exit code\<close>




lemma run_unreadable: "\<not> readable l \<Longrightarrow> run env l cmd name check = Inl ValueError"
  by (simp add: run_def create_hap_unreadable)

section \<open>Properties of cleaning\<close>

lemma get_haps_dirs: "get_haps l = get_hap_dirs l"
  by (cases "get_hap_dirs l") (simp_all add: get_haps_def)

lemma rmtree_all_distinct:
  "distinct ds \<Longrightarrow> set ds \<subseteq> set (names_of l) \<Longrightarrow>
     rmtree_all l ds = (filter (\<lambda>e. fst e \<notin> set ds) l, None)"
proof (induction ds arbitrary: l)
  case Nil
  then show ?case by simp
next
  case (Cons d ds)
  let ?l = "filter (\<lambda>e. fst e \<noteq> d) l"
  have "set ds \<subseteq> set (names_of ?l)"
  proof
    fix x assume x: "x \<in> set ds"
    then have "x \<noteq> d" using Cons.prems(1) by auto
    moreover from x obtain h where "(x, h) \<in> set l"
      using Cons.prems(2) by (auto simp: names_of_def)
    ultimately show "x \<in> set (names_of ?l)" by (force simp: names_of_def)
  qed
  with Cons have "rmtree_all ?l ds = (filter (\<lambda>e. fst e \<notin> set ds) ?l, None)" by simp
  moreover have "filter (\<lambda>e. fst e \<notin> set ds) ?l = filter (\<lambda>e. fst e \<notin> set (d # ds)) l"
    by (induction l) auto
  ultimately show ?case using Cons.prems by (simp add: rmtree_def)
qed


lemma clean_unreadable: "\<not> readable (hapless_dir w) \<Longrightarrow> clean w b = (w, Some ValueError)"
  by (simp add: clean_def get_haps_dirs get_hap_dirs_unreadable)

lemma clean_one_unreadable:
  "\<not> readable (hapless_dir w) \<Longrightarrow> clean_one w hap verbose = (w, Some ValueError)"
  by (simp add: clean_one_def get_haps_dirs get_hap_dirs_unreadable)

lemma clean_result:
  assumes "distinct (names_of (hapless_dir w))" and "readable (hapless_dir w)"
  shows "hapless_dir (fst (clean w clean_all)) =
           filter (\<lambda>e. \<not> (isdigit (fst e) \<and> to_clean w clean_all (fst e))) (hapless_dir w)"
    and "snd (clean w clean_all) = None"
    and "console (fst (clean w clean_all)) = console w @
           [if list_ex (\<lambda>d. isdigit d \<and> to_clean w clean_all d) (names_of (hapless_dir w))
            then Deleted_finished
                   (length (filter (\<lambda>d. isdigit d \<and> to_clean w clean_all d)
                      (names_of (hapless_dir w))))
            else Nothing_to_clean]"
proof -
  let ?l = "hapless_dir w"
  from assms(2) obtain dirs where dirs: "get_hap_dirs ?l = Inr dirs"
    using get_hap_dirs_readable by blast
  let ?haps = "filter (to_clean w clean_all) dirs"
  have m: "dirs = sort_key int_key (filter isdigit (names_of ?l))"
    using dirs by (simp add: get_hap_dirs_Inr)
  have "distinct ?haps" using dirs_distinct [OF dirs assms(1)] by simp
  moreover have "set ?haps \<subseteq> set (names_of ?l)"
    using set_dirs [OF dirs] by (auto simp: record_dir_def)
  ultimately have r: "rmtree_all ?l ?haps = (filter (\<lambda>e. fst e \<notin> set ?haps) ?l, None)"
    by (rule rmtree_all_distinct)
  have f: "filter (\<lambda>e. fst e \<notin> set ?haps) ?l =
          filter (\<lambda>e. \<not> (isdigit (fst e) \<and> to_clean w clean_all (fst e))) ?l"
    by (rule filter_cong) (auto simp: set_dirs [OF dirs] record_dir_def names_of_def)
  have c: "clean w clean_all =
       (print (w\<lparr>hapless_dir :=
                  filter (\<lambda>e. \<not> (isdigit (fst e) \<and> to_clean w clean_all (fst e))) ?l\<rparr>)
          [if ?haps \<noteq> [] then Deleted_finished (length ?haps) else Nothing_to_clean], None)"
    using r unfolding f by (simp add: clean_def get_haps_dirs dirs Let_def)
  show "hapless_dir (fst (clean w clean_all)) =
           filter (\<lambda>e. \<not> (isdigit (fst e) \<and> to_clean w clean_all (fst e))) ?l"
    by (simp add: c print_def)
  show "snd (clean w clean_all) = None" by (simp add: c)
  have "?haps =
      sort_key int_key (filter (\<lambda>d. isdigit d \<and> to_clean w clean_all d) (names_of ?l))"
    unfolding m by (simp add: filter_sort conj_commute)
  then have len: "length ?haps =
      length (filter (\<lambda>d. isdigit d \<and> to_clean w clean_all d) (names_of ?l))"
    by (simp only: length_sort)
  have ne: "?haps \<noteq> [] \<longleftrightarrow>
      list_ex (\<lambda>d. isdigit d \<and> to_clean w clean_all d) (names_of ?l)"
    using set_dirs [OF dirs] by (auto simp: filter_empty_conv list_ex_iff record_dir_def)
  show "console (fst (clean w clean_all)) = console w @
           [if list_ex (\<lambda>d. isdigit d \<and> to_clean w clean_all d) (names_of ?l)
            then Deleted_finished
                   (length (filter (\<lambda>d. isdigit d \<and> to_clean w clean_all d) (names_of ?l)))
            else Nothing_to_clean]"
    unfolding c using len ne by (simp add: print_def)
qed

lemma map_of_filter_fst:
  "Q k \<Longrightarrow> map_of (filter (\<lambda>e. Q (fst e)) l) k = map_of l k"
  by (induction l) auto

lemma clean_world:
  "procs (fst (clean w b)) = procs w"
  by (simp add: clean_def Let_def print_def split: prod.splits option.splits sum.splits)

lemma readable_filter:
  "readable l \<Longrightarrow> readable (filter P l)"
  by (induction l) (auto simp: readable_def names_of_def)

lemma distinct_names_filter:
  "distinct (names_of l) \<Longrightarrow> distinct (names_of (filter P l))"
  by (simp add: names_of_def distinct_map_filter)

lemma status_after_clean:
  assumes "distinct (names_of (hapless_dir w))" and "readable (hapless_dir w)"
    and "\<not> (isdigit d \<and> to_clean w b d)"
  shows "status (fst (clean w b)) d = status w d"
proof -
  have "files (hapless_dir (fst (clean w b))) d = files (hapless_dir w) d"
    using clean_result(1) [OF assms(1,2), of b] assms(3)
      map_of_filter_fst [of "\<lambda>k. \<not> (isdigit k \<and> to_clean w b k)" d "hapless_dir w"]
    by (simp add: files_def)
  then show ?thesis by (simp add: status_def hap_files_def clean_world)
qed

lemma clean_again_nothing:
  assumes "distinct (names_of (hapless_dir w))" and "readable (hapless_dir w)"
  shows "clean (fst (clean w b)) b = (print (fst (clean w b)) [Nothing_to_clean], None)"
proof -
  let ?w = "fst (clean w b)"
  have l: "hapless_dir ?w =
      filter (\<lambda>e. \<not> (isdigit (fst e) \<and> to_clean w b (fst e))) (hapless_dir w)"
    using clean_result(1) [OF assms] by simp
  have d: "distinct (names_of (hapless_dir ?w))"
    unfolding l using assms(1) by (rule distinct_names_filter)
  have r: "readable (hapless_dir ?w)"
    unfolding l using assms(2) by (rule readable_filter)
  have n: "\<not> (isdigit d \<and> to_clean ?w b d)" if d: "d \<in> set (names_of (hapless_dir ?w))" for d
  proof
    assume a: "isdigit d \<and> to_clean ?w b d"
    from d have n: "\<not> (isdigit d \<and> to_clean w b d)"
      unfolding l by (auto simp: names_of_def)
    then have "status ?w d = status w d" using status_after_clean [OF assms] by simp
    then show False using n a by (simp add: to_clean_def)
  qed
  have e: "filter (\<lambda>e. \<not> (isdigit (fst e) \<and> to_clean ?w b (fst e))) (hapless_dir ?w) =
        hapless_dir ?w"
    using n by (auto simp: filter_id_conv names_of_def)
  have x: "\<not> list_ex (\<lambda>d. isdigit d \<and> to_clean ?w b d) (names_of (hapless_dir ?w))"
    using n by (auto simp: list_ex_iff)
  obtain w' r' where c: "clean ?w b = (w', r')" by (cases "clean ?w b")
  have "hapless_dir w' = hapless_dir ?w" using clean_result(1) [OF d r, of b] e c by simp
  moreover have "r' = None" using clean_result(2) [OF d r, of b] c by simp
  moreover have "console w' = console ?w @ [Nothing_to_clean]"
    using clean_result(3) [OF d r, of b] x c by simp
  moreover have "procs w' = procs ?w" using clean_world [of ?w b] c by simp
  ultimately have "w' = print ?w [Nothing_to_clean]" by (simp add: print_def)
  with c \<open>r' = None\<close> show ?thesis by simp
qed

text \<open>
  In a readable registry whose entries have distinct names, \<^verbatim>\<open>clean\<close> raises nothing
  and removes exactly the record directories whose status is \<open>SUCCESS\<close>, and those whose
  status is \<open>FAILED\<close> when \<^verbatim>\<open>clean_all\<close> is set; all other entries stay, in their
  order, and the process table is left alone. A second \<^verbatim>\<open>clean\<close> right after a first
  one removes nothing: it only prints that there is nothing to clean.
\<close>

lemma clean_removes_finished:
  assumes "distinct (names_of (hapless_dir w))" and "readable (hapless_dir w)"
  shows "snd (clean w clean_all) = None \<and>
     hapless_dir (fst (clean w clean_all)) =
       filter (\<lambda>e. \<not> (isdigit (fst e) \<and>
                 (status w (fst e) = SUCCESS \<or> (status w (fst e) = FAILED \<and> clean_all))))
         (hapless_dir w) \<and>
     procs (fst (clean w clean_all)) = procs w \<and>
     clean (fst (clean w False)) False =
       (print (fst (clean w False)) [Nothing_to_clean], None)"
proof (intro conjI)
  show "snd (clean w clean_all) = None"
    using clean_result(2) [OF assms] by simp
  show "hapless_dir (fst (clean w clean_all)) =
       filter (\<lambda>e. \<not> (isdigit (fst e) \<and>
                 (status w (fst e) = SUCCESS \<or> (status w (fst e) = FAILED \<and> clean_all))))
         (hapless_dir w)"
    using clean_result(1) [OF assms, of clean_all] by (simp add: to_clean_def)
  show "procs (fst (clean w clean_all)) = procs w" by (rule clean_world)
  show "clean (fst (clean w False)) False =
       (print (fst (clean w False)) [Nothing_to_clean], None)"
    using assms by (rule clean_again_nothing)
qed

text \<open>
  Claim C4. The claim fails in a registry that holds a directory whose name is a digit
  that \<^verbatim>\<open>int\<close> rejects. In the example registry record 1 has succeeded; \<^verbatim>\<open>clean\<close>
  removes it. With the directory named by the superscript two beside it, \<^verbatim>\<open>get_haps\<close>
  raises \<^verbatim>\<open>ValueError\<close> and \<^verbatim>\<open>clean\<close> removes nothing, record 1 included.
\<close>

theorem clean_superscript_two:
  "status mixed (lit ''1'') = SUCCESS \<and>
   snd (clean mixed False) = None \<and>
   names_of (hapless_dir (fst (clean mixed False))) =
     [lit ''2'', lit ''3'', lit ''4'', lit ''5''] \<and>
   hapless_dir superscript = hapless_dir mixed @ [([178], no_files)] \<and>
   status superscript (lit ''1'') = SUCCESS \<and>
   snd (clean superscript False) = Some ValueError \<and>
   names_of (hapless_dir (fst (clean superscript False))) =
     [lit ''1'', lit ''2'', lit ''3'', lit ''4'', lit ''5'', [178]]"
  by code_simp

subsection \<open>Active records\<close>







section \<open>Properties of pausing and resuming\<close>

lemma hap_files_print [simp]: "hap_files (print w ms) d = hap_files w d"
  by (simp add: hap_files_def print_def)

lemma procs_print [simp]: "procs (print w ms) = procs w"
  by (simp add: print_def)

lemma hap_files_procs_update [simp]: "hap_files (w\<lparr>procs := t\<rparr>) d = hap_files w d"
  by (simp add: hap_files_def)

lemma hap_proc_Some:
  "hap_proc t h = Some (p, st) \<longleftrightarrow> hap_rc h = None \<and> hap_pid h = Some p \<and> t p = Some st"
  by (auto simp: hap_proc_def split: option.splits)

lemma hap_proc_None:
  "hap_proc t h = None \<longleftrightarrow> hap_status t h \<noteq> RUNNING \<and> hap_status t h \<noteq> PAUSED"
  by (auto simp: hap_proc_def hap_status_def split: option.splits)

lemma hap_status_PAUSED:
  "hap_status t h = PAUSED \<longleftrightarrow> (\<exists>p. hap_proc t h = Some (p, STATUS_STOPPED))"
  by (auto simp: hap_proc_def hap_status_def split: option.splits)

lemma hap_status_RUNNING:
  "hap_status t h = RUNNING \<longleftrightarrow> (\<exists>p st. hap_proc t h = Some (p, st) \<and> st \<noteq> STATUS_STOPPED)"
  by (auto simp: hap_proc_def hap_status_def split: option.splits)

text \<open>
  Claim C8. \<^verbatim>\<open>resume_hap\<close> succeeds exactly when the record has a process and the
  operating system reports it as stopped, which is when the status of the record is
  \<open>PAUSED\<close>; it then resumes that process, after which the record is \<open>RUNNING\<close>. In
  every other case (a running process, no process, a finished record) it changes
  nothing, prints that it cannot resume and raises \<^verbatim>\<open>SystemExit(1)\<close>.
\<close>

theorem resume_hap_only_stopped:
  "(hap_proc (procs w) (hap_files w d) = Some (p, STATUS_STOPPED) \<longrightarrow>
      resume_hap w d = (print (w\<lparr>procs := resume p (procs w)\<rparr>) [Resumed d], None) \<and>
      procs (fst (resume_hap w d)) p = Some STATUS_RUNNING \<and>
      status (fst (resume_hap w d)) d = RUNNING) \<and>
   ((\<forall>q. hap_proc (procs w) (hap_files w d) \<noteq> Some (q, STATUS_STOPPED)) \<longrightarrow>
      resume_hap w d = (print w [Cannot_resume d], Some (SystemExit 1))) \<and>
   (snd (resume_hap w d) = None \<longleftrightarrow>
      (\<exists>q. hap_proc (procs w) (hap_files w d) = Some (q, STATUS_STOPPED))) \<and>
   (status w d = PAUSED \<longleftrightarrow>
      (\<exists>q. hap_proc (procs w) (hap_files w d) = Some (q, STATUS_STOPPED)))"
proof (intro conjI impI)
  assume s: "hap_proc (procs w) (hap_files w d) = Some (p, STATUS_STOPPED)"
  then show r: "resume_hap w d = (print (w\<lparr>procs := resume p (procs w)\<rparr>) [Resumed d], None)"
    by (simp add: resume_hap_def)
  show "procs (fst (resume_hap w d)) p = Some STATUS_RUNNING"
    using r by (simp add: resume_def)
  show "status (fst (resume_hap w d)) d = RUNNING"
    using r s by (simp add: status_def hap_status_def hap_proc_Some resume_def)
next
  assume "\<forall>q. hap_proc (procs w) (hap_files w d) \<noteq> Some (q, STATUS_STOPPED)"
  then show "resume_hap w d = (print w [Cannot_resume d], Some (SystemExit 1))"
    by (auto simp: resume_hap_def split: option.splits)
next
  show "snd (resume_hap w d) = None \<longleftrightarrow>
      (\<exists>q. hap_proc (procs w) (hap_files w d) = Some (q, STATUS_STOPPED))"
    by (auto simp: resume_hap_def split: option.splits)
  show "status w d = PAUSED \<longleftrightarrow>
      (\<exists>q. hap_proc (procs w) (hap_files w d) = Some (q, STATUS_STOPPED))"
    by (simp add: status_def hap_status_PAUSED)
qed

text \<open>In the example registry the stopped record 4 is resumed, the running record 2 and
  the finished record 1 are refused, and pausing record 2 and resuming it at once leaves
  it running.\<close>

theorem resume_hap_only_stopped_witness:
  "hap_proc (procs mixed) (hap_files mixed (lit ''4'')) = Some (101, STATUS_STOPPED) \<and>
   snd (resume_hap mixed (lit ''4'')) = None \<and>
   status (fst (resume_hap mixed (lit ''4''))) (lit ''4'') = RUNNING \<and>
   status mixed (lit ''2'') = RUNNING \<and>
   resume_hap mixed (lit ''2'') = (print mixed [Cannot_resume (lit ''2'')], Some (SystemExit 1)) \<and>
   status mixed (lit ''1'') = SUCCESS \<and>
   resume_hap mixed (lit ''1'') = (print mixed [Cannot_resume (lit ''1'')], Some (SystemExit 1)) \<and>
   status (fst (resume_hap (fst (pause_hap mixed (lit ''2''))) (lit ''2''))) (lit ''2'') = RUNNING"
proof -
  have p4: "hap_proc (procs mixed) (hap_files mixed (lit ''4'')) = Some (101, STATUS_STOPPED)"
    by code_simp
  have p2: "hap_proc (procs mixed) (hap_files mixed (lit ''2'')) = Some (100, STATUS_SLEEPING)"
    by code_simp
  have p1: "hap_proc (procs mixed) (hap_files mixed (lit ''1'')) = None" by code_simp
  have s2: "status mixed (lit ''2'') = RUNNING" by code_simp
  have s1: "status mixed (lit ''1'') = SUCCESS" by code_simp
  have pr: "status (fst (resume_hap (fst (pause_hap mixed (lit ''2''))) (lit ''2''))) (lit ''2'') = RUNNING"
    by code_simp
  have "snd (resume_hap mixed (lit ''4'')) = None \<and> status (fst (resume_hap mixed (lit ''4''))) (lit ''4'') = RUNNING"
    using resume_hap_only_stopped [of mixed "lit ''4''" 101] p4 by blast
  moreover have "resume_hap mixed (lit ''2'') = (print mixed [Cannot_resume (lit ''2'')], Some (SystemExit 1))"
    using resume_hap_only_stopped [of mixed "lit ''2''" 100] p2 by auto
  moreover have "resume_hap mixed (lit ''1'') = (print mixed [Cannot_resume (lit ''1'')], Some (SystemExit 1))"
    using resume_hap_only_stopped [of mixed "lit ''1''" 90] p1 by auto
  ultimately show ?thesis using p4 s2 s1 pr by simp
qed

text \<open>
  Claim C9 as stated does not hold: \<^verbatim>\<open>pause_hap\<close> tests that the record has a process
  and nothing else, so a record that is paused already is accepted. In the example
  registry record 4 is \<open>PAUSED\<close>; \<^verbatim>\<open>pause_hap\<close> returns normally, prints that the hap
  is paused and leaves it \<open>PAUSED\<close>.
\<close>

theorem pause_paused_counterexample:
  "status mixed (lit ''4'') = PAUSED \<and>
   snd (pause_hap mixed (lit ''4'')) = None \<and>
   console (fst (pause_hap mixed (lit ''4''))) = [Paused (lit ''4'')] \<and>
   status (fst (pause_hap mixed (lit ''4''))) (lit ''4'') = PAUSED"
  by code_simp

text \<open>
  Claim C9, amended. \<^verbatim>\<open>pause_hap\<close> is accepted exactly when the record has a live
  process (no return code is written, a pid is bound and the process table has that
  pid), stopped or not: the process is suspended, the message is printed, the call returns
  and the record is \<open>PAUSED\<close>; this is so in particular for a record that is \<open>PAUSED\<close>
  already. In every other case nothing is suspended, the refusal is printed and
  \<^verbatim>\<open>SystemExit(1)\<close> is raised: for every record that is not active, and whatever status
  is given to a bound record without return code and without live process.
\<close>

theorem pause_hap_active_only:
  "(hap_proc (procs w) (hap_files w d) = Some (p, st) \<longrightarrow>
      hap_rc (hap_files w d) = None \<and> hap_pid (hap_files w d) = Some p \<and>
      procs w p = Some st \<and>
      pause_hap w d = (print (w\<lparr>procs := suspend p (procs w)\<rparr>) [Paused d], None) \<and>
      procs (fst (pause_hap w d)) p = Some STATUS_STOPPED \<and>
      status (fst (pause_hap w d)) d = PAUSED) \<and>
   (status w d = PAUSED \<longrightarrow> (\<exists>q. hap_proc (procs w) (hap_files w d) = Some (q, STATUS_STOPPED))) \<and>
   (snd (pause_hap w d) = None \<longleftrightarrow>
      (\<exists>q s. hap_proc (procs w) (hap_files w d) = Some (q, s))) \<and>
   (hap_proc (procs w) (hap_files w d) = None \<longrightarrow>
      pause_hap w d = (print w [Cannot_pause d], Some (SystemExit 1))) \<and>
   (\<not> active w d \<longrightarrow> pause_hap w d = (print w [Cannot_pause d], Some (SystemExit 1))) \<and>
   (hap_rc (hap_files w d) \<noteq> None \<or> hap_pid (hap_files w d) = None \<or>
    (\<exists>q. hap_pid (hap_files w d) = Some q \<and> procs w q = None) \<longrightarrow>
      pause_hap w d = (print w [Cannot_pause d], Some (SystemExit 1)))"
proof (intro conjI impI)
  assume p: "hap_proc (procs w) (hap_files w d) = Some (p, st)"
  then show f: "hap_rc (hap_files w d) = None" "hap_pid (hap_files w d) = Some p"
    "procs w p = Some st"
    by (simp_all add: hap_proc_Some)
  show r: "pause_hap w d = (print (w\<lparr>procs := suspend p (procs w)\<rparr>) [Paused d], None)"
    using p by (simp add: pause_hap_def)
  show "procs (fst (pause_hap w d)) p = Some STATUS_STOPPED"
    using r by (simp add: suspend_def)
  show "status (fst (pause_hap w d)) d = PAUSED"
    using r f by (simp add: status_def hap_status_def suspend_def)
next
  assume "status w d = PAUSED"
  then show "\<exists>q. hap_proc (procs w) (hap_files w d) = Some (q, STATUS_STOPPED)"
    by (simp add: status_def hap_status_PAUSED)
next
  show "snd (pause_hap w d) = None \<longleftrightarrow>
      (\<exists>q s. hap_proc (procs w) (hap_files w d) = Some (q, s))"
    by (auto simp: pause_hap_def split: option.splits)
next
  assume "hap_proc (procs w) (hap_files w d) = None"
  then show "pause_hap w d = (print w [Cannot_pause d], Some (SystemExit 1))"
    by (simp add: pause_hap_def)
next
  assume "\<not> active w d"
  then have "hap_proc (procs w) (hap_files w d) = None"
    by (simp add: active_def hap_active_def hap_proc_None)
  then show "pause_hap w d = (print w [Cannot_pause d], Some (SystemExit 1))"
    by (simp add: pause_hap_def)
next
  assume "hap_rc (hap_files w d) \<noteq> None \<or> hap_pid (hap_files w d) = None \<or>
    (\<exists>q. hap_pid (hap_files w d) = Some q \<and> procs w q = None)"
  then have "hap_proc (procs w) (hap_files w d) = None"
    by (auto simp: hap_proc_def split: option.splits)
  then show "pause_hap w d = (print w [Cannot_pause d], Some (SystemExit 1))"
    by (simp add: pause_hap_def)
qed

text \<open>In the example registry the running record 2 is paused and the paused record 4
  is accepted and stays paused; the failed record 3 and the unbound record 5 are refused,
  and so is record 2 once its process is gone from the process table.\<close>

theorem pause_hap_active_only_witness:
  "hap_proc (procs mixed) (hap_files mixed (lit ''2'')) = Some (100, STATUS_SLEEPING) \<and>
   snd (pause_hap mixed (lit ''2'')) = None \<and>
   status (fst (pause_hap mixed (lit ''2''))) (lit ''2'') = PAUSED \<and>
   status mixed (lit ''4'') = PAUSED \<and>
   snd (pause_hap mixed (lit ''4'')) = None \<and>
   \<not> active mixed (lit ''3'') \<and>
   pause_hap mixed (lit ''3'') = (print mixed [Cannot_pause (lit ''3'')], Some (SystemExit 1)) \<and>
   \<not> active mixed (lit ''5'') \<and>
   pause_hap mixed (lit ''5'') = (print mixed [Cannot_pause (lit ''5'')], Some (SystemExit 1)) \<and>
   hap_pid (hap_files mixed (lit ''2'')) = Some 100 \<and>
   snd (pause_hap (mixed\<lparr>procs := Map.empty\<rparr>) (lit ''2'')) = Some (SystemExit 1)"
proof -
  let ?gone = "mixed\<lparr>procs := Map.empty\<rparr>"
  have p2: "hap_proc (procs mixed) (hap_files mixed (lit ''2'')) = Some (100, STATUS_SLEEPING)"
    by code_simp
  have s4: "status mixed (lit ''4'') = PAUSED" by code_simp
  have a3: "\<not> active mixed (lit ''3'')" by code_simp
  have a5: "\<not> active mixed (lit ''5'')" by code_simp
  have g: "hap_pid (hap_files mixed (lit ''2'')) = Some 100" by code_simp
  have g': "hap_pid (hap_files ?gone (lit ''2'')) = Some 100 \<and> procs ?gone 100 = None"
    by code_simp
  have "snd (pause_hap mixed (lit ''2'')) = None \<and>
        status (fst (pause_hap mixed (lit ''2''))) (lit ''2'') = PAUSED"
    using pause_hap_active_only [of mixed "lit ''2''" 100 STATUS_SLEEPING] p2 by blast
  moreover have "snd (pause_hap mixed (lit ''4'')) = None"
    using pause_hap_active_only [of mixed "lit ''4''" 101 STATUS_STOPPED] s4 by blast
  moreover have "pause_hap mixed (lit ''3'') =
      (print mixed [Cannot_pause (lit ''3'')], Some (SystemExit 1))"
    using pause_hap_active_only [of mixed "lit ''3''" 0 STATUS_STOPPED] a3 by blast
  moreover have "pause_hap mixed (lit ''5'') =
      (print mixed [Cannot_pause (lit ''5'')], Some (SystemExit 1))"
    using pause_hap_active_only [of mixed "lit ''5''" 0 STATUS_STOPPED] a5 by blast
  moreover have "snd (pause_hap ?gone (lit ''2'')) = Some (SystemExit 1)"
  proof -
    have "pause_hap ?gone (lit ''2'') =
        (print ?gone [Cannot_pause (lit ''2'')], Some (SystemExit 1))"
      using pause_hap_active_only [of ?gone "lit ''2''" 0 STATUS_STOPPED] g' by blast
    then show ?thesis by simp
  qed
  ultimately show ?thesis using p2 s4 a3 a5 g by simp
qed

end
